theory Spec2Isabelle
  imports Complex_Main "HOL-Library.AList" "HOL-Library.Sublist"
begin

section \<open>facebookinsights.graph: selections over a paginated graph API\<close>

text \<open>
  A shallow embedding of \<^verbatim>\<open>src/facebookinsights/graph.py\<close> (Python 2).
  Every raise of the source, explicit or implicit, is a value of \<open>error\<close>; a function that
  can raise returns \<open>error + 'a\<close> with \<open>Inl\<close> for the error.
\<close>

subsection \<open>Values\<close>

text \<open>
  A point on the time line, in microseconds (the resolution of Python's \<^verbatim>\<open>datetime\<close>);
  the order of the integers is the chronological order.
\<close>

type_synonym instant = int

datatype error =
    KeyError string
  | TypeError
  | ValueError
  | IndexError
  | AttributeError string
  | NotImplementedError

text \<open>Decoded JSON, as the transport hands it over.\<close>

datatype json =
    JNull
  | JBool bool
  | JNum int
  | JStr string
  | JList "json list"
  | JDict "(string \<times> json) list"

text \<open>
  The Python values that end up in a result row: a decoded JSON value, a \<^verbatim>\<open>datetime\<close>,
  or a \<^verbatim>\<open>str\<close> (the bucket key \<^verbatim>\<open>'lifetime'\<close> is one).
\<close>

datatype pyval =
    PJson json
  | PDatetime instant
  | PStr string

subsection \<open>Collaborators that are not part of graph.py\<close>

text \<open>
  \<^verbatim>\<open>utils.date\<close>, \<^verbatim>\<open>utils.api.getdata\<close>, \<^verbatim>\<open>utils.extract_quotes\<close> and the standard library's
  \<^verbatim>\<open>urlparse\<close> are used by graph.py and defined elsewhere. They enter as the fields of one
  record, so that every statement below holds for all of them.
  \<open>urlparse_query raw\<close> stands for \<^verbatim>\<open>urlparse.urlparse(raw).query\<close> and \<open>parse_qs q\<close> for
  \<^verbatim>\<open>urlparse.parse_qs(q)\<close>, a dict from parameter name to the list of its values, given
  here as an association list.
\<close>

record raw_post =
  r_id :: string
  r_type :: string
  r_created_time :: string
  r_updated_time :: string
  r_name :: "json option"
  r_story :: "json option"
  r_link :: "json option"
  r_description :: "string option"
  r_shares :: "json option"
  r_picture :: "string option"
  r_rest :: "(string \<times> json) list"

record env =
  COMMON_ERA :: instant
  parse :: "string \<Rightarrow> instant"
  parse_utc :: "string \<Rightarrow> instant"
  timestamp :: "string \<Rightarrow> int"
  getdata :: "raw_post \<Rightarrow> string \<Rightarrow> json"
  extract_quotes :: "string \<Rightarrow> string list"
  urlparse_query :: "string \<Rightarrow> string"
  parse_qs :: "string \<Rightarrow> (string \<times> string list) list"

text \<open>
  What the clock shows while one call runs: \<^verbatim>\<open>datetime.now()\<close> as an instant and
  \<^verbatim>\<open>datetime.today().isoformat()\<close> as the string the source makes of it.
\<close>

record clock =
  now :: instant
  today_isoformat :: string

subsection \<open>Python's dict and list access\<close>

definition getitem :: "('k \<times> 'v) list \<Rightarrow> 'k \<Rightarrow> string \<Rightarrow> error + 'v" where
  "getitem d k shown = (case map_of d k of None \<Rightarrow> Inl (KeyError shown) | Some v \<Rightarrow> Inr v)"

definition first :: "'a list \<Rightarrow> error + 'a" where
  "first xs = (case xs of [] \<Rightarrow> Inl IndexError | x # _ \<Rightarrow> Inr x)"

text \<open>\<^verbatim>\<open>s.split(c)\<close> for a one-character separator: never empty, one more piece than separators.\<close>

fun split_on :: "char \<Rightarrow> string \<Rightarrow> string list" where
  "split_on c [] = [[]]"
| "split_on c (x # xs) =
     (if x = c then [] # split_on c xs
      else (case split_on c xs of [] \<Rightarrow> [[x]] | p # ps \<Rightarrow> (x # p) # ps))"

definition bind_res :: "error + 'a \<Rightarrow> ('a \<Rightarrow> error + 'b) \<Rightarrow> error + 'b" where
  "bind_res r f = (case r of Inl err \<Rightarrow> Inl err | Inr v \<Rightarrow> f v)"

subsection \<open>Picture\<close>

text \<open>
  \<^verbatim>\<open>Picture.__init__\<close> (lines 216-230). The attributes \<open>width\<close> and \<open>height\<close> are only
  assigned in the first branch; \<open>None\<close> stands for an attribute that was never set. The
  back-references \<^verbatim>\<open>post\<close> and \<^verbatim>\<open>graph\<close> are left out of the record.
\<close>

record picture =
  pic_raw :: string
  pic_url :: string
  pic_qs :: "(string \<times> string list) list"
  pic_origin :: string
  pic_width :: "string option"
  pic_height :: "string option"
  pic_basename :: string

definition Picture_init :: "env \<Rightarrow> string \<Rightarrow> error + picture" where
  "Picture_init e raw =
     (let qs = parse_qs e (urlparse_query e raw) in
      if ''url'' \<in> fst ` set qs then
        bind_res (getitem qs ''url'' ''url'') (\<lambda>us.
        bind_res (first us) (\<lambda>origin.
        bind_res (getitem qs ''w'' ''w'') (\<lambda>ws.
        bind_res (first ws) (\<lambda>width.
        bind_res (getitem qs ''h'' ''h'') (\<lambda>hs.
        bind_res (first hs) (\<lambda>height.
          Inr \<lparr>pic_raw = raw, pic_url = raw, pic_qs = qs, pic_origin = origin,
               pic_width = Some width, pic_height = Some height,
               pic_basename = last (split_on CHR ''/'' origin)\<rparr>))))))
      else
        Inr \<lparr>pic_raw = raw, pic_url = raw, pic_qs = qs, pic_origin = raw,
             pic_width = None, pic_height = None,
             pic_basename = last (split_on CHR ''/'' raw)\<rparr>)"

subsection \<open>The transport handle\<close>

text \<open>
  \<^verbatim>\<open>GraphAPI\<close> is defined outside graph.py; what graph.py needs of it are the answers to its
  calls, typed as the source reads them. \<^verbatim>\<open>graph.get('posts', **params)\<close> answers with one
  page when \<^verbatim>\<open>params['page']\<close> is false and with a lazy sequence of pages when it is true;
  the sequence is given by its generator, \<open>None\<close> once it is exhausted, and it need not end.
\<close>

record post_page =
  page_data :: "raw_post list"

record value_row =
  v_value :: json
  v_end_time :: "string option"

record dataset =
  d_name :: string
  d_values :: "value_row list"

record insights_result =
  res_data :: "dataset list"

record params =
  p_page :: bool
  p_since :: "int option"
  p_until :: "int option"
  p_limit :: "int option"
  p_period :: "string option"

record graph =
  get_posts :: "params \<Rightarrow> post_page"
  get_posts_pages :: "params \<Rightarrow> nat \<Rightarrow> post_page option"
  get_insights :: "params \<Rightarrow> insights_result"
  all_insights :: "string list \<Rightarrow> params \<Rightarrow> insights_result list"

text \<open>The calls a transport handle has received, oldest first.\<close>

datatype request =
    Get string params
  | All string "string list" params

record edge =
  edge_name :: string
  edge_graph :: graph

subsection \<open>Post\<close>

text \<open>
  \<^verbatim>\<open>Post.__init__\<close> (lines 238-261). The keys read with \<^verbatim>\<open>raw[...]\<close> are the plain fields
  of \<open>raw_post\<close>, the keys read with \<^verbatim>\<open>raw.get(...)\<close> its optional fields. The post's own
  transport handle \<^verbatim>\<open>account.graph.partial(raw['id'])\<close> is left out of the record.
\<close>

record post =
  post_account :: edge
  post_raw :: raw_post
  post_id :: string
  post_type :: string
  created_time :: instant
  updated_time :: instant
  post_name :: "json option"
  post_story :: "json option"
  post_link :: "json option"
  post_description :: "string option"
  post_shares :: "json option"
  post_comments :: json
  post_likes :: json
  post_quotes :: "string list"
  post_picture :: "picture option"

definition Post_init :: "env \<Rightarrow> edge \<Rightarrow> raw_post \<Rightarrow> error + post" where
  "Post_init e account raw =
     bind_res
       (case r_picture raw of
          Some url \<Rightarrow> bind_res (Picture_init e url) (\<lambda>pic. Inr (Some pic))
        | None \<Rightarrow> Inr None)
       (\<lambda>pic.
          Inr \<lparr>post_account = account, post_raw = raw,
               post_id = r_id raw, post_type = r_type raw,
               created_time = parse e (r_created_time raw),
               updated_time = parse e (r_updated_time raw),
               post_name = r_name raw, post_story = r_story raw, post_link = r_link raw,
               post_description = r_description raw, post_shares = r_shares raw,
               post_comments = getdata e raw ''comments'',
               post_likes = getdata e raw ''likes'',
               post_quotes =
                 extract_quotes e (case r_description raw of None \<Rightarrow> [] | Some d \<Rightarrow> d),
               post_picture = pic\<rparr>)"

subsection \<open>Selection\<close>

text \<open>
  The two dicts of a Selection are mutable objects that the source copies and updates in
  place, so they live in a store and a Selection holds their addresses. A dict with a fixed
  set of possible keys is a record; a key that may be absent is an optional field, and
  reading it with \<^verbatim>\<open>d[key]\<close> while it is absent is a \<open>KeyError\<close>. An address is the
  position in the store; allocation appends.
\<close>

record meta =
  m_since :: instant
  m_until :: instant
  m_single :: "bool option"
  m_metrics :: "string list option"

record store =
  metas :: "meta list"
  paramss :: "params list"

datatype cls = PostSelection | InsightsSelection

text \<open>\<open>sel_results\<close> is the attribute \<^verbatim>\<open>_results\<close>; \<open>None\<close> while it has not been set.\<close>

record 'r selection =
  sel_class :: cls
  sel_edge :: edge
  sel_meta :: nat
  sel_params :: nat
  sel_results :: "'r option"

definition sel_graph :: "'r selection \<Rightarrow> graph" where
  "sel_graph self = edge_graph (sel_edge self)"

definition the_meta :: "store \<Rightarrow> 'r selection \<Rightarrow> meta" where
  "the_meta st self = metas st ! sel_meta self"

definition the_params :: "store \<Rightarrow> 'r selection \<Rightarrow> params" where
  "the_params st self = paramss st ! sel_params self"

definition alloc_meta :: "store \<Rightarrow> meta \<Rightarrow> store \<times> nat" where
  "alloc_meta st m = (st\<lparr>metas := metas st @ [m]\<rparr>, length (metas st))"

definition alloc_params :: "store \<Rightarrow> params \<Rightarrow> store \<times> nat" where
  "alloc_params st p = (st\<lparr>paramss := paramss st @ [p]\<rparr>, length (paramss st))"

definition update_meta :: "store \<Rightarrow> nat \<Rightarrow> (meta \<Rightarrow> meta) \<Rightarrow> store" where
  "update_meta st a f = st\<lparr>metas := (metas st)[a := f (metas st ! a)]\<rparr>"

definition update_params :: "store \<Rightarrow> nat \<Rightarrow> (params \<Rightarrow> params) \<Rightarrow> store" where
  "update_params st a f = st\<lparr>paramss := (paramss st)[a := f (paramss st ! a)]\<rparr>"

text \<open>\<^verbatim>\<open>Selection.__init__\<close> (lines 18-27), for an instance of class \<open>c\<close>.\<close>

definition Selection_init ::
  "env \<Rightarrow> clock \<Rightarrow> cls \<Rightarrow> edge \<Rightarrow> store \<Rightarrow> store \<times> 'r selection" where
  "Selection_init e clk c edge st =
     (let (st1, m) = alloc_meta st
            \<lparr>m_since = COMMON_ERA e, m_until = now clk, m_single = None, m_metrics = None\<rparr>;
          (st2, p) = alloc_params st1
            \<lparr>p_page = False, p_since = None, p_until = None, p_limit = None, p_period = None\<rparr>
      in (st2, \<lparr>sel_class = c, sel_edge = edge, sel_meta = m, sel_params = p,
                sel_results = None\<rparr>))"

text \<open>\<^verbatim>\<open>Selection.clone\<close> (lines 29-33); \<^verbatim>\<open>copy.copy\<close> allocates a dict with the same entries.\<close>

definition clone :: "env \<Rightarrow> clock \<Rightarrow> store \<Rightarrow> 'r selection \<Rightarrow> store \<times> 'r selection" where
  "clone e clk st self =
     (let (st1, selection) = Selection_init e clk (sel_class self) (sel_edge self) st;
          (st2, m) = alloc_meta st1 (the_meta st1 self);
          (st3, p) = alloc_params st2 (the_params st2 self)
      in (st3, selection\<lparr>sel_meta := m, sel_params := p\<rparr>))"

text \<open>
  Modelled from the spec: the decorator \<^verbatim>\<open>immutable\<close> of \<^verbatim>\<open>utils.functional\<close>, which is not
  part of graph.py. The spec, section 4.1: builder calls never mutate \<^verbatim>\<open>self\<close>; they operate
  on a clone and return it.
\<close>

definition immutable ::
  "env \<Rightarrow> clock \<Rightarrow> (store \<Rightarrow> 'r selection \<Rightarrow> store \<times> 'r selection) \<Rightarrow>
   store \<Rightarrow> 'r selection \<Rightarrow> store \<times> 'r selection" where
  "immutable e clk fn st self = (let (st1, obj) = clone e clk st self in fn st1 obj)"

text \<open>
  \<^verbatim>\<open>Selection.range\<close> (lines 35-45): the decorated method, and under it the body that the
  decorator wraps. \<^verbatim>\<open>not until\<close> holds for \<^verbatim>\<open>None\<close> and for the empty string.
\<close>

definition range_body ::
  "env \<Rightarrow> clock \<Rightarrow> string \<Rightarrow> string option \<Rightarrow> store \<Rightarrow> 'r selection \<Rightarrow> store \<times> 'r selection"
  where
  "range_body e clk since until st self =
     (let until1 = (case until of None \<Rightarrow> today_isoformat clk
                    | Some u \<Rightarrow> if u = [] then today_isoformat clk else u);
          st1 = update_meta st (sel_meta self) (\<lambda>m. m\<lparr>m_since := parse_utc e since\<rparr>);
          st2 = update_meta st1 (sel_meta self) (\<lambda>m. m\<lparr>m_until := parse_utc e until1\<rparr>);
          st3 = update_params st2 (sel_params self) (\<lambda>p. p\<lparr>p_page := True\<rparr>);
          st4 = update_params st3 (sel_params self) (\<lambda>p. p\<lparr>p_since := Some (timestamp e since)\<rparr>);
          st5 = update_params st4 (sel_params self) (\<lambda>p. p\<lparr>p_until := Some (timestamp e until1)\<rparr>)
      in (st5, self))"

definition Selection_range ::
  "env \<Rightarrow> clock \<Rightarrow> string \<Rightarrow> string option \<Rightarrow> store \<Rightarrow> 'r selection \<Rightarrow> store \<times> 'r selection"
  where
  "Selection_range e clk since until = immutable e clk (range_body e clk since until)"

text \<open>\<^verbatim>\<open>Selection.since\<close> (lines 47-49).\<close>

definition Selection_since ::
  "env \<Rightarrow> clock \<Rightarrow> string \<Rightarrow> store \<Rightarrow> 'r selection \<Rightarrow> store \<times> 'r selection" where
  "Selection_since e clk date =
     immutable e clk (\<lambda>st self. Selection_range e clk date None st self)"

text \<open>\<^verbatim>\<open>PostSelection.latest\<close> (lines 61-64); the caller who omits \<^verbatim>\<open>n\<close> passes 1.\<close>

definition latest_body :: "int \<Rightarrow> store \<Rightarrow> 'r selection \<Rightarrow> store \<times> 'r selection" where
  "latest_body n st self =
     (update_params st (sel_params self) (\<lambda>p. p\<lparr>p_limit := Some n\<rparr>), self)"

definition PostSelection_latest ::
  "env \<Rightarrow> clock \<Rightarrow> int \<Rightarrow> store \<Rightarrow> 'r selection \<Rightarrow> store \<times> 'r selection" where
  "PostSelection_latest e clk n = immutable e clk (latest_body n)"

text \<open>
  The argument \<^verbatim>\<open>metrics\<close> of the period builders: omitted (\<^verbatim>\<open>None\<close>), one bare name, or a
  list of names. \<^verbatim>\<open>InsightsSelection._metrics\<close> (lines 112-120); \<^verbatim>\<open>if ids\<close> fails for
  \<^verbatim>\<open>None\<close>, for the empty string and for the empty list.
\<close>

datatype metrics_arg = Omitted | Name string | Names "string list"

definition truthy :: "metrics_arg \<Rightarrow> bool" where
  "truthy ids = (case ids of Omitted \<Rightarrow> False | Name n \<Rightarrow> n \<noteq> [] | Names ns \<Rightarrow> ns \<noteq> [])"

definition metrics_helper :: "metrics_arg \<Rightarrow> store \<Rightarrow> 'r selection \<Rightarrow> store \<times> 'r selection" where
  "metrics_helper ids st self =
     (if truthy ids then
        (case ids of
           Names ns \<Rightarrow>
             (let st1 = update_meta st (sel_meta self) (\<lambda>m. m\<lparr>m_single := Some False\<rparr>)
              in (update_meta st1 (sel_meta self) (\<lambda>m. m\<lparr>m_metrics := Some ns\<rparr>), self))
         | Name n \<Rightarrow>
             (let st1 = update_meta st (sel_meta self) (\<lambda>m. m\<lparr>m_single := Some True\<rparr>)
              in (update_meta st1 (sel_meta self) (\<lambda>m. m\<lparr>m_metrics := Some [n]\<rparr>), self))
         | Omitted \<Rightarrow> (st, self))
      else (st, self))"

text \<open>
  \<^verbatim>\<open>daily\<close>, \<^verbatim>\<open>weekly\<close>, \<^verbatim>\<open>monthly\<close>, \<^verbatim>\<open>lifetime\<close> (lines 92-110) differ in the period tag
  only.
\<close>

definition period_body ::
  "string \<Rightarrow> metrics_arg \<Rightarrow> store \<Rightarrow> 'r selection \<Rightarrow> store \<times> 'r selection" where
  "period_body tag metrics st self =
     metrics_helper metrics
       (update_params st (sel_params self) (\<lambda>p. p\<lparr>p_period := Some tag\<rparr>)) self"

definition InsightsSelection_daily ::
  "env \<Rightarrow> clock \<Rightarrow> metrics_arg \<Rightarrow> store \<Rightarrow> 'r selection \<Rightarrow> store \<times> 'r selection" where
  "InsightsSelection_daily e clk metrics = immutable e clk (period_body ''day'' metrics)"

definition InsightsSelection_weekly ::
  "env \<Rightarrow> clock \<Rightarrow> metrics_arg \<Rightarrow> store \<Rightarrow> 'r selection \<Rightarrow> store \<times> 'r selection" where
  "InsightsSelection_weekly e clk metrics = immutable e clk (period_body ''week'' metrics)"

definition InsightsSelection_monthly ::
  "env \<Rightarrow> clock \<Rightarrow> metrics_arg \<Rightarrow> store \<Rightarrow> 'r selection \<Rightarrow> store \<times> 'r selection" where
  "InsightsSelection_monthly e clk metrics = immutable e clk (period_body ''days_28'' metrics)"

definition InsightsSelection_lifetime ::
  "env \<Rightarrow> clock \<Rightarrow> metrics_arg \<Rightarrow> store \<Rightarrow> 'r selection \<Rightarrow> store \<times> 'r selection" where
  "InsightsSelection_lifetime e clk metrics = immutable e clk (period_body ''lifetime'' metrics)"

subsection \<open>PostSelection.get\<close>

text \<open>
  \<^verbatim>\<open>PostSelection.get\<close> (lines 69-88). The inner loop over the items of one page answers
  with the posts so far and whether the \<^verbatim>\<open>return\<close> of line 86 was taken. The outer loop
  runs over a lazy sequence that may have no end, so it is a partial function: \<open>None\<close> is
  a loop that never returns.
\<close>

fun scan_page ::
  "env \<Rightarrow> edge \<Rightarrow> instant \<Rightarrow> raw_post list \<Rightarrow> post list \<Rightarrow> error + (bool \<times> post list)" where
  "scan_page e account since [] posts = Inr (False, posts)"
| "scan_page e account since (raw # rest) posts =
     (case Post_init e account raw of
        Inl err \<Rightarrow> Inl err
      | Inr post \<Rightarrow>
          if created_time post \<ge> since then scan_page e account since rest (posts @ [post])
          else Inr (True, posts))"

partial_function (option) scan_pages ::
  "env \<Rightarrow> edge \<Rightarrow> instant \<Rightarrow> (nat \<Rightarrow> post_page option) \<Rightarrow> nat \<Rightarrow> post list \<Rightarrow>
   (error + post list) option" where
  "scan_pages e account since pages i posts =
     (case pages i of
        None \<Rightarrow> Some (Inr posts)
      | Some page \<Rightarrow>
          (case scan_page e account since (page_data page) posts of
             Inl err \<Rightarrow> Some (Inl err)
           | Inr r \<Rightarrow>
               if fst r then Some (Inr (snd r))
               else scan_pages e account since pages (Suc i) (snd r)))"

definition seq_of_list :: "'a list \<Rightarrow> nat \<Rightarrow> 'a option" where
  "seq_of_list xs i = (if i < length xs then Some (xs ! i) else None)"

definition PostSelection_pages :: "store \<Rightarrow> 'r selection \<Rightarrow> nat \<Rightarrow> post_page option" where
  "PostSelection_pages st self =
     (if \<not> p_page (the_params st self)
      then seq_of_list [get_posts (sel_graph self) (the_params st self)]
      else get_posts_pages (sel_graph self) (the_params st self))"

definition PostSelection_get ::
  "env \<Rightarrow> store \<Rightarrow> 'r selection \<Rightarrow> request list \<Rightarrow> (error + post list) option \<times> request list"
  where
  "PostSelection_get e st self sent =
     (scan_pages e (sel_edge self) (m_since (the_meta st self)) (PostSelection_pages st self) 0 [],
      sent @ [Get ''posts'' (the_params st self)])"

subsection \<open>Rows: collections.namedtuple\<close>

text \<open>
  \<^verbatim>\<open>namedtuple('Row', fields)\<close> checks the names before it builds the class: in a first
  pass over the type name and the field names, every character is alphanumeric or an
  underscore, the name is no keyword and does not start with a digit (the test reads
  \<^verbatim>\<open>name[0]\<close>, an \<open>IndexError\<close> on the empty name); in a second pass over the field names,
  no name starts with an underscore or occurs twice. The class is then given by its fields.
\<close>

definition isdigit :: "char \<Rightarrow> bool" where
  "isdigit c = (48 \<le> (of_char c :: nat) \<and> (of_char c :: nat) \<le> 57)"

definition isalnum :: "char \<Rightarrow> bool" where
  "isalnum c =
     (isdigit c \<or> (65 \<le> (of_char c :: nat) \<and> (of_char c :: nat) \<le> 90)
      \<or> (97 \<le> (of_char c :: nat) \<and> (of_char c :: nat) \<le> 122))"

definition kwlist :: "string list" where
  "kwlist =
     [''and'', ''as'', ''assert'', ''break'', ''class'', ''continue'', ''def'', ''del'',
      ''elif'', ''else'', ''except'', ''exec'', ''finally'', ''for'', ''from'', ''global'',
      ''if'', ''import'', ''in'', ''is'', ''lambda'', ''not'', ''or'', ''pass'', ''print'',
      ''raise'', ''return'', ''try'', ''while'', ''with'', ''yield'']"

definition check_name :: "string \<Rightarrow> error option" where
  "check_name name =
     (if \<not> list_all (\<lambda>c. isalnum c \<or> c = CHR ''_'') name then Some ValueError
      else if name \<in> set kwlist then Some ValueError
      else (case name of
              [] \<Rightarrow> Some IndexError
            | c # _ \<Rightarrow> if isdigit c then Some ValueError else None))"

fun check_names :: "string list \<Rightarrow> error option" where
  "check_names [] = None"
| "check_names (name # names) =
     (case check_name name of Some err \<Rightarrow> Some err | None \<Rightarrow> check_names names)"

fun check_seen :: "string list \<Rightarrow> string list \<Rightarrow> error option" where
  "check_seen seen [] = None"
| "check_seen seen (name # names) =
     (if take 1 name = ''_'' then Some ValueError
      else if name \<in> set seen then Some ValueError
      else check_seen (name # seen) names)"

definition namedtuple :: "string \<Rightarrow> string list \<Rightarrow> error + string list" where
  "namedtuple typename field_names =
     (case check_names (typename # field_names) of
        Some err \<Rightarrow> Inl err
      | None \<Rightarrow>
          (case check_seen [] field_names of
             Some err \<Rightarrow> Inl err
           | None \<Rightarrow> Inr field_names))"

record row =
  row_fields :: "string list"
  row_cells :: "pyval list"

text \<open>
  The call \<^verbatim>\<open>Row(end_time=time, **values)\<close> of line 182. A keyword given twice, a keyword
  that is no field, and a field without a value are each a \<open>TypeError\<close>.
\<close>

definition Row_new :: "string list \<Rightarrow> pyval \<Rightarrow> (string \<times> json) list \<Rightarrow> error + row" where
  "Row_new fieldnames time values =
     (let kwargs = (''end_time'', time) # map (\<lambda>kv. (fst kv, PJson (snd kv))) values in
      if \<not> distinct (map fst kwargs) then Inl TypeError
      else if \<not> list_all (\<lambda>k. k \<in> set fieldnames) (map fst kwargs) then Inl TypeError
      else if \<not> list_all (\<lambda>f. f \<in> set (map fst kwargs)) fieldnames then Inl TypeError
      else Inr \<lparr>row_fields = fieldnames, row_cells = map (\<lambda>f. the (map_of kwargs f)) fieldnames\<rparr>)"

text \<open>
  \<^verbatim>\<open>getattr(row, metric)\<close> of line 189, on the fields of the row only (the methods that every
  tuple has are not considered).
\<close>

definition getattr :: "row \<Rightarrow> string \<Rightarrow> error + pyval" where
  "getattr r name =
     (case map_of (zip (row_fields r) (row_cells r)) name of
        None \<Rightarrow> Inl (AttributeError name)
      | Some v \<Rightarrow> Inr v)"

subsection \<open>InsightsSelection.get\<close>

text \<open>
  The pivot of lines 161-176. The dict \<^verbatim>\<open>data\<close> and its inner dicts are association lists
  in the order of first insertion. Python 2 leaves the iteration order of a dict open, so
  no statement below depends on the order of the buckets.
\<close>

type_synonym buckets = "(pyval \<times> (string \<times> json) list) list"

definition bucket_key :: "env \<Rightarrow> value_row \<Rightarrow> pyval" where
  "bucket_key e r =
     (case v_end_time r of
        None \<Rightarrow> PStr ''lifetime''
      | Some t \<Rightarrow> if t = [] then PStr ''lifetime'' else PDatetime (parse e t))"

definition setdefault :: "('k \<times> 'v) list \<Rightarrow> 'k \<Rightarrow> 'v \<Rightarrow> ('k \<times> 'v) list" where
  "setdefault d k v = (if k \<in> set (map fst d) then d else d @ [(k, v)])"

fun pivot_values :: "env \<Rightarrow> string \<Rightarrow> value_row list \<Rightarrow> buckets \<Rightarrow> buckets" where
  "pivot_values e metric [] data = data"
| "pivot_values e metric (r # rows) data =
     pivot_values e metric rows
       (AList.map_entry (bucket_key e r) (AList.update metric (v_value r))
          (setdefault data (bucket_key e r) []))"

fun pivot :: "env \<Rightarrow> dataset list \<Rightarrow> string list \<Rightarrow> buckets \<Rightarrow> string list \<times> buckets" where
  "pivot e [] fieldnames data = (fieldnames, data)"
| "pivot e (ds # datasets) fieldnames data =
     pivot e datasets (fieldnames @ [d_name ds]) (pivot_values e (d_name ds) (d_values ds) data)"

fun make_rows :: "string list \<Rightarrow> buckets \<Rightarrow> row list \<Rightarrow> error + row list" where
  "make_rows Row [] rows = Inr rows"
| "make_rows Row (tv # items) rows =
     bind_res (Row_new Row (fst tv) (snd tv)) (\<lambda>r. make_rows Row items (rows @ [r]))"

fun getattrs :: "string \<Rightarrow> row list \<Rightarrow> error + pyval list" where
  "getattrs metric [] = Inr []"
| "getattrs metric (r # rows) =
     bind_res (getattr r metric) (\<lambda>v. bind_res (getattrs metric rows) (\<lambda>vs. Inr (v # vs)))"

text \<open>What \<^verbatim>\<open>get\<close> returns: rows, or plain metric values in the simplified format.\<close>

datatype item = RowItem row | Plain pyval

definition has_daterange :: "store \<Rightarrow> 'r selection \<Rightarrow> bool" where
  "has_daterange st self =
     (p_since (the_params st self) \<noteq> None \<or> p_until (the_params st self) \<noteq> None)"

text \<open>
  A \<^verbatim>\<open>timedelta\<close> is a whole number of microseconds. The source computes
  \<^verbatim>\<open>total_seconds()\<close> and the three divisions in floating point; here they are exact.
\<close>

definition total_seconds :: "int \<Rightarrow> real" where
  "total_seconds td = real_of_int td / 10 ^ 6"

definition requested_days :: "store \<Rightarrow> 'r selection \<Rightarrow> int" where
  "requested_days st self =
     (if has_daterange st self then
        (let seconds = total_seconds (m_until (the_meta st self) - m_since (the_meta st self))
         in \<lceil>seconds / 60 / 60 / 24\<rceil>)
      else 3)"

definition fetch_insights ::
  "store \<Rightarrow> 'r selection \<Rightarrow> request list \<Rightarrow> insights_result list \<times> request list" where
  "fetch_insights st self sent =
     (case m_metrics (the_meta st self) of
        Some metrics \<Rightarrow>
          (all_insights (sel_graph self) metrics (the_params st self),
           sent @ [All ''insights'' metrics (the_params st self)])
      | None \<Rightarrow>
          ([get_insights (sel_graph self) (the_params st self)],
           sent @ [Get ''insights'' (the_params st self)]))"

definition shape_rows :: "store \<Rightarrow> 'r selection \<Rightarrow> row list \<Rightarrow> error + item list" where
  "shape_rows st self rows =
     bind_res (case m_single (the_meta st self) of
                 None \<Rightarrow> Inl (KeyError ''single'') | Some b \<Rightarrow> Inr b) (\<lambda>single.
     if single then
       bind_res (case m_metrics (the_meta st self) of
                   None \<Rightarrow> Inl (KeyError ''metrics'') | Some ms \<Rightarrow> Inr ms) (\<lambda>metrics.
       bind_res (first metrics) (\<lambda>metric.
       bind_res (getattrs metric rows) (\<lambda>vs. Inr (map Plain vs))))
     else Inr (map RowItem rows))"

text \<open>\<^verbatim>\<open>InsightsSelection.get\<close> (lines 126-191).\<close>

definition InsightsSelection_get ::
  "env \<Rightarrow> store \<Rightarrow> 'r selection \<Rightarrow> request list \<Rightarrow> (error + item list) \<times> request list" where
  "InsightsSelection_get e st self sent =
     (if requested_days st self > 31 * 3 then (Inl NotImplementedError, sent)
      else
        (let (results, sent1) = fetch_insights st self sent;
             datasets = concat (map res_data results);
             (fieldnames, data) = pivot e datasets [''end_time''] []
         in (bind_res (namedtuple ''Row'' fieldnames) (\<lambda>Row.
             bind_res (make_rows Row data []) (\<lambda>rows.
             shape_rows st self rows)),
             sent1)))"

text \<open>\<^verbatim>\<open>InsightsSelection.serialize\<close> (lines 193-194). Only a Row has \<^verbatim>\<open>_asdict\<close>.\<close>

definition asdict :: "item \<Rightarrow> error + (string \<times> pyval) list" where
  "asdict x =
     (case x of
        RowItem r \<Rightarrow> Inr (zip (row_fields r) (row_cells r))
      | Plain v \<Rightarrow> Inl (AttributeError ''_asdict''))"

fun asdicts :: "item list \<Rightarrow> error + (string \<times> pyval) list list" where
  "asdicts [] = Inr []"
| "asdicts (x # xs) =
     bind_res (asdict x) (\<lambda>d. bind_res (asdicts xs) (\<lambda>ds. Inr (d # ds)))"

definition InsightsSelection_serialize ::
  "env \<Rightarrow> store \<Rightarrow> 'r selection \<Rightarrow> request list \<Rightarrow>
   (error + (string \<times> pyval) list list) \<times> request list" where
  "InsightsSelection_serialize e st self sent =
     (let (r, sent1) = InsightsSelection_get e st self sent
      in (bind_res r asdicts, sent1))"

subsection \<open>Sample data\<close>

text \<open>
  A concrete date collaborator, transport handle and feed, for evaluating the definitions.
  The feed is a lazy sequence without end: its first page holds the posts of March 3rd and
  2nd, every later page the posts of March 1st and of February 1st.
\<close>

definition sample_parse :: "string \<Rightarrow> instant" where
  "sample_parse s =
     (case map_of
        [(''2014-02-01T00:00:00+0000'', 1391212800000000),
         (''2014-03-01T00:00:00+0000'', 1393632000000000),
         (''2014-03-02T00:00:00+0000'', 1393718400000000),
         (''2014-03-03T00:00:00+0000'', 1393804800000000),
         (''2014-05-30T00:00:00+0000'', 1401408000000000),
         (''2014-06-09T00:00:00+0000'', 1402272000000000)] s of
        None \<Rightarrow> 0
      | Some t \<Rightarrow> t)"

definition sample_parse_qs :: "string \<Rightarrow> (string \<times> string list) list" where
  "sample_parse_qs q =
     (if q = ''w=130&h=130&url=http%3A%2F%2Fexample.com%2Fimg%2Fa.jpg''
      then [(''w'', [''130'']), (''h'', [''130'']), (''url'', [''http://example.com/img/a.jpg''])]
      else if q = ''url=http%3A%2F%2Fexample.com%2Fimg%2Fa.jpg''
      then [(''url'', [''http://example.com/img/a.jpg''])]
      else [])"

definition sample_env :: env where
  "sample_env =
     \<lparr>COMMON_ERA = 0,
      parse = sample_parse,
      parse_utc = sample_parse,
      timestamp = (\<lambda>s. sample_parse s div 1000000),
      getdata = (\<lambda>raw key. JList []),
      extract_quotes = (\<lambda>s. []),
      urlparse_query = (\<lambda>url. concat (tl (split_on CHR ''?'' url))),
      parse_qs = sample_parse_qs\<rparr>"

definition sample_clock :: clock where
  "sample_clock = \<lparr>now = 1402272000000000, today_isoformat = ''2014-06-09T00:00:00+0000''\<rparr>"

definition sample_raw :: "string \<Rightarrow> string \<Rightarrow> raw_post" where
  "sample_raw i created =
     \<lparr>r_id = i, r_type = ''status'', r_created_time = created, r_updated_time = created,
      r_name = None, r_story = None, r_link = None, r_description = None, r_shares = None,
      r_picture = None, r_rest = []\<rparr>"

definition sample_page1 :: post_page where
  "sample_page1 =
     \<lparr>page_data = [sample_raw ''p4'' ''2014-03-03T00:00:00+0000'',
                   sample_raw ''p3'' ''2014-03-02T00:00:00+0000'']\<rparr>"

definition sample_page2 :: post_page where
  "sample_page2 =
     \<lparr>page_data = [sample_raw ''p2'' ''2014-03-01T00:00:00+0000'',
                   sample_raw ''p1'' ''2014-02-01T00:00:00+0000'']\<rparr>"

definition sample_result :: insights_result where
  "sample_result =
     \<lparr>res_data =
        [\<lparr>d_name = ''page_fans'',
          d_values = [\<lparr>v_value = JNum 10, v_end_time = Some ''2014-03-01T00:00:00+0000''\<rparr>,
                      \<lparr>v_value = JNum 12, v_end_time = Some ''2014-03-02T00:00:00+0000''\<rparr>]\<rparr>]\<rparr>"

text \<open>
  The answer to one sub-request of a batch: metric \<^verbatim>\<open>a\<close> has a value on March 1st and on
  March 2nd, metric \<^verbatim>\<open>b\<close> on March 2nd only, every other metric has none.
\<close>

definition sample_metric :: "string \<Rightarrow> insights_result" where
  "sample_metric m =
     \<lparr>res_data =
        [\<lparr>d_name = m,
          d_values =
            (if m = ''a'' then
               [\<lparr>v_value = JNum 1, v_end_time = Some ''2014-03-01T00:00:00+0000''\<rparr>,
                \<lparr>v_value = JNum 2, v_end_time = Some ''2014-03-02T00:00:00+0000''\<rparr>]
             else if m = ''b'' then
               [\<lparr>v_value = JNum 3, v_end_time = Some ''2014-03-02T00:00:00+0000''\<rparr>]
             else [])\<rparr>]\<rparr>"

definition sample_graph :: graph where
  "sample_graph =
     \<lparr>get_posts = (\<lambda>ps. sample_page1),
      get_posts_pages = (\<lambda>ps i. if i = 0 then Some sample_page1 else Some sample_page2),
      get_insights = (\<lambda>ps. sample_result),
      all_insights = (\<lambda>metrics ps. map sample_metric metrics)\<rparr>"

definition sample_edge :: edge where
  "sample_edge = \<lparr>edge_name = ''A page'', edge_graph = sample_graph\<rparr>"

definition sample_post :: "string \<Rightarrow> string \<Rightarrow> post" where
  "sample_post i created =
     \<lparr>post_account = sample_edge, post_raw = sample_raw i created,
      post_id = i, post_type = ''status'',
      created_time = sample_parse created, updated_time = sample_parse created,
      post_name = None, post_story = None, post_link = None, post_description = None,
      post_shares = None, post_comments = JList [], post_likes = JList [],
      post_quotes = [], post_picture = None\<rparr>"

text \<open>
  A store with the dicts of three selections: at address 0 those of a selection after
  \<^verbatim>\<open>range('2014-03-01T00:00:00+0000', '2014-06-09T00:00:00+0000')\<close>, at address 1 those of
  a fresh one, at address 2 those of a selection after
  \<^verbatim>\<open>range('2014-05-30T00:00:00+0000', '2014-06-09T00:00:00+0000')\<close>, a range that is later
  than every post of the feed.
\<close>

definition sample_store :: store where
  "sample_store =
     \<lparr>metas =
        [\<lparr>m_since = 1393632000000000, m_until = 1402272000000000,
          m_single = None, m_metrics = None\<rparr>,
         \<lparr>m_since = 0, m_until = 1402272000000000, m_single = None, m_metrics = None\<rparr>,
         \<lparr>m_since = 1401408000000000, m_until = 1402272000000000,
          m_single = None, m_metrics = None\<rparr>],
      paramss =
        [\<lparr>p_page = True, p_since = Some 1393632000, p_until = Some 1402272000,
          p_limit = None, p_period = None\<rparr>,
         \<lparr>p_page = False, p_since = None, p_until = None, p_limit = None, p_period = None\<rparr>,
         \<lparr>p_page = True, p_since = Some 1401408000, p_until = Some 1402272000,
          p_limit = None, p_period = None\<rparr>]\<rparr>"

definition sample_late_posts :: "post list selection" where
  "sample_late_posts =
     \<lparr>sel_class = PostSelection, sel_edge = sample_edge, sel_meta = 2, sel_params = 2,
      sel_results = None\<rparr>"

definition sample_posts :: "post list selection" where
  "sample_posts =
     \<lparr>sel_class = PostSelection, sel_edge = sample_edge, sel_meta = 0, sel_params = 0,
      sel_results = None\<rparr>"

text \<open>
  The dicts of five insights selections on the sample page. Address 0: after
  \<^verbatim>\<open>range('2014-03-01...', '2014-06-09...')\<close>, a span of 100 days. Address 1: after
  \<^verbatim>\<open>range('2014-03-01...', '2014-05-30...').daily(['a', 'b'])\<close>, a span of 90 days.
  Address 2: a fresh selection. Address 3: after \<^verbatim>\<open>daily('a')\<close>. Address 4: after
  \<^verbatim>\<open>daily('c')\<close>.
\<close>

definition sample_insights_store :: store where
  "sample_insights_store =
     \<lparr>metas =
        [\<lparr>m_since = 1393632000000000, m_until = 1402272000000000,
          m_single = None, m_metrics = None\<rparr>,
         \<lparr>m_since = 1393632000000000, m_until = 1401408000000000,
          m_single = Some False, m_metrics = Some [''a'', ''b'']\<rparr>,
         \<lparr>m_since = 0, m_until = 1402272000000000, m_single = None, m_metrics = None\<rparr>,
         \<lparr>m_since = 0, m_until = 1402272000000000,
          m_single = Some True, m_metrics = Some [''a'']\<rparr>,
         \<lparr>m_since = 0, m_until = 1402272000000000,
          m_single = Some True, m_metrics = Some [''c'']\<rparr>],
      paramss =
        [\<lparr>p_page = True, p_since = Some 1393632000, p_until = Some 1402272000,
          p_limit = None, p_period = None\<rparr>,
         \<lparr>p_page = True, p_since = Some 1393632000, p_until = Some 1401408000,
          p_limit = None, p_period = Some ''day''\<rparr>,
         \<lparr>p_page = False, p_since = None, p_until = None, p_limit = None, p_period = None\<rparr>,
         \<lparr>p_page = False, p_since = None, p_until = None, p_limit = None,
          p_period = Some ''day''\<rparr>,
         \<lparr>p_page = False, p_since = None, p_until = None, p_limit = None,
          p_period = Some ''day''\<rparr>]\<rparr>"

definition sample_insights :: "nat \<Rightarrow> item list selection" where
  "sample_insights a =
     \<lparr>sel_class = InsightsSelection, sel_edge = sample_edge, sel_meta = a, sel_params = a,
      sel_results = None\<rparr>"


definition sample_a_b :: "item list selection" where
  "sample_a_b = sample_insights 1"




text \<open>The metric names that a bucket of the pivot holds; none for a key that is no bucket.\<close>

definition metrics_at :: "buckets \<Rightarrow> pyval \<Rightarrow> string set" where
  "metrics_at data k = (case map_of data k of None \<Rightarrow> {} | Some vals \<Rightarrow> fst ` set vals)"

subsection \<open>Selection: item access\<close>

text \<open>\<^verbatim>\<open>xs[key]\<close> for an integer key; a negative key counts from the end.\<close>

definition index :: "'a list \<Rightarrow> int \<Rightarrow> error + 'a" where
  "index xs key =
     (let n = int (length xs); j = (if key < 0 then n + key else key)
      in if 0 \<le> j \<and> j < n then Inr (xs ! nat j) else Inl IndexError)"

text \<open>
  \<^verbatim>\<open>Selection.__getitem__\<close> and \<^verbatim>\<open>Selection.__iter__\<close> (lines 51-57). \<^verbatim>\<open>get\<close> is the method of
  the concrete class; it answers with its result (\<open>None\<close> when it never returns) and the
  calls sent so far. Both methods answer also with the instance, whose attribute
  \<^verbatim>\<open>_results\<close> \<^verbatim>\<open>__iter__\<close> may have set; the iterator returned is given by the list it
  runs over.
\<close>

definition Selection_getitem ::
  "('a list selection \<Rightarrow> request list \<Rightarrow> (error + 'a list) option \<times> request list) \<Rightarrow>
   'a list selection \<Rightarrow> int \<Rightarrow> request list \<Rightarrow>
   (error + 'a) option \<times> 'a list selection \<times> request list" where
  "Selection_getitem get self key sent =
     (case get self sent of
        (None, sent1) \<Rightarrow> (None, self, sent1)
      | (Some (Inl err), sent1) \<Rightarrow> (Some (Inl err), self, sent1)
      | (Some (Inr xs), sent1) \<Rightarrow> (Some (index xs key), self, sent1))"

definition Selection_iter ::
  "('a list selection \<Rightarrow> request list \<Rightarrow> (error + 'a list) option \<times> request list) \<Rightarrow>
   'a list selection \<Rightarrow> request list \<Rightarrow>
   (error + 'a list) option \<times> 'a list selection \<times> request list" where
  "Selection_iter get self sent =
     (case sel_results self of
        Some xs \<Rightarrow> (Some (Inr xs), self, sent)
      | None \<Rightarrow>
          (case get self sent of
             (Some (Inr xs), sent1) \<Rightarrow> (Some (Inr xs), self\<lparr>sel_results := Some xs\<rparr>, sent1)
           | (r, sent1) \<Rightarrow> (r, self, sent1)))"

subsection \<open>Builder calls\<close>

text \<open>
  A builder call by its name and arguments. \<^verbatim>\<open>latest\<close> is a method of PostSelection only
  and the period builders are methods of InsightsSelection only; on an instance of the
  other class the attribute lookup fails.
\<close>

datatype call =
    Range string "string option"
  | Since string
  | Latest int
  | Daily metrics_arg
  | Weekly metrics_arg
  | Monthly metrics_arg
  | Lifetime metrics_arg

definition builder ::
  "env \<Rightarrow> clock \<Rightarrow> call \<Rightarrow> store \<Rightarrow> 'r selection \<Rightarrow> error + store \<times> 'r selection" where
  "builder e clk c st self =
     (case c of
        Range since until \<Rightarrow> Inr (Selection_range e clk since until st self)
      | Since date \<Rightarrow> Inr (Selection_since e clk date st self)
      | Latest n \<Rightarrow>
          if sel_class self = PostSelection then Inr (PostSelection_latest e clk n st self)
          else Inl (AttributeError ''latest'')
      | Daily metrics \<Rightarrow>
          if sel_class self = InsightsSelection
          then Inr (InsightsSelection_daily e clk metrics st self)
          else Inl (AttributeError ''daily'')
      | Weekly metrics \<Rightarrow>
          if sel_class self = InsightsSelection
          then Inr (InsightsSelection_weekly e clk metrics st self)
          else Inl (AttributeError ''weekly'')
      | Monthly metrics \<Rightarrow>
          if sel_class self = InsightsSelection
          then Inr (InsightsSelection_monthly e clk metrics st self)
          else Inl (AttributeError ''monthly'')
      | Lifetime metrics \<Rightarrow>
          if sel_class self = InsightsSelection
          then Inr (InsightsSelection_lifetime e clk metrics st self)
          else Inl (AttributeError ''lifetime''))"

text \<open>A chain of builder calls, each with the clock of its time; it ends at the first error.\<close>

fun chain ::
  "env \<Rightarrow> (clock \<times> call) list \<Rightarrow> store \<Rightarrow> 'r selection \<Rightarrow> error + store \<times> 'r selection" where
  "chain e [] st self = Inr (st, self)"
| "chain e (cc # calls) st self =
     (case builder e (fst cc) (snd cc) st self of
        Inl err \<Rightarrow> Inl err
      | Inr r \<Rightarrow> chain e calls (fst r) (snd r))"

definition sets_range :: "call \<Rightarrow> bool" where
  "sets_range c = (case c of Range since until \<Rightarrow> True | Since date \<Rightarrow> True | _ \<Rightarrow> False)"

text \<open>
  A selection is \<open>valid\<close> in a store that holds its two dicts. \<open>fresh_copy st self st' s'\<close>: the
  selection \<open>s'\<close> of the store \<open>st'\<close> has the class and the edge of \<open>self\<close>; every dict of \<open>st\<close>
  is in \<open>st'\<close> at its address with its entries; and the two dicts of \<open>s'\<close> are dicts of
  \<open>st'\<close> at addresses that \<open>st\<close> does not have.
\<close>

definition valid :: "store \<Rightarrow> 'r selection \<Rightarrow> bool" where
  "valid st self \<longleftrightarrow>
     sel_meta self < length (metas st) \<and> sel_params self < length (paramss st)"

definition fresh_copy :: "store \<Rightarrow> 'r selection \<Rightarrow> store \<Rightarrow> 'r selection \<Rightarrow> bool" where
  "fresh_copy st self st' s' \<longleftrightarrow>
     sel_class s' = sel_class self \<and> sel_edge s' = sel_edge self \<and>
     prefix (metas st) (metas st') \<and> prefix (paramss st) (paramss st') \<and>
     length (metas st) \<le> sel_meta s' \<and> sel_meta s' < length (metas st') \<and>
     length (paramss st) \<le> sel_params s' \<and> sel_params s' < length (paramss st')"

text \<open>The dicts that \<^verbatim>\<open>Selection.__init__\<close> creates.\<close>

definition init_meta :: "env \<Rightarrow> clock \<Rightarrow> meta" where
  "init_meta e clk =
     \<lparr>m_since = COMMON_ERA e, m_until = now clk, m_single = None, m_metrics = None\<rparr>"

definition init_params :: params where
  "init_params =
     \<lparr>p_page = False, p_since = None, p_until = None, p_limit = None, p_period = None\<rparr>"

definition sample_all_posts :: "post list selection" where
  "sample_all_posts =
     \<lparr>sel_class = PostSelection, sel_edge = sample_edge, sel_meta = 1, sel_params = 1,
      sel_results = None\<rparr>"

subsection \<open>What a builder call leaves in the two dicts\<close>

text \<open>
  The entries that the spec (sections 4.1 to 4.3) gives the dicts of the selection a
  builder call returns, as functions of the entries of the selection it was called on.
  They are stated apart from the source's methods, to compare the two.
\<close>

definition default_until :: "clock \<Rightarrow> string option \<Rightarrow> string" where
  "default_until clk until =
     (case until of
        None \<Rightarrow> today_isoformat clk
      | Some u \<Rightarrow> if u = [] then today_isoformat clk else u)"

definition metrics_delta :: "metrics_arg \<Rightarrow> meta \<Rightarrow> meta" where
  "metrics_delta ids m =
     (case ids of
        Omitted \<Rightarrow> m
      | Name n \<Rightarrow> if n = [] then m else m\<lparr>m_single := Some True, m_metrics := Some [n]\<rparr>
      | Names ns \<Rightarrow> if ns = [] then m else m\<lparr>m_single := Some False, m_metrics := Some ns\<rparr>)"

definition spec_meta_after :: "env \<Rightarrow> clock \<Rightarrow> call \<Rightarrow> meta \<Rightarrow> meta" where
  "spec_meta_after e clk c m =
     (case c of
        Range since until \<Rightarrow>
          m\<lparr>m_since := parse_utc e since, m_until := parse_utc e (default_until clk until)\<rparr>
      | Since date \<Rightarrow>
          m\<lparr>m_since := parse_utc e date, m_until := parse_utc e (today_isoformat clk)\<rparr>
      | Latest n \<Rightarrow> m
      | Daily metrics \<Rightarrow> metrics_delta metrics m
      | Weekly metrics \<Rightarrow> metrics_delta metrics m
      | Monthly metrics \<Rightarrow> metrics_delta metrics m
      | Lifetime metrics \<Rightarrow> metrics_delta metrics m)"

definition spec_params_after :: "env \<Rightarrow> clock \<Rightarrow> call \<Rightarrow> params \<Rightarrow> params" where
  "spec_params_after e clk c p =
     (case c of
        Range since until \<Rightarrow>
          p\<lparr>p_page := True, p_since := Some (timestamp e since),
            p_until := Some (timestamp e (default_until clk until))\<rparr>
      | Since date \<Rightarrow>
          p\<lparr>p_page := True, p_since := Some (timestamp e date),
            p_until := Some (timestamp e (today_isoformat clk))\<rparr>
      | Latest n \<Rightarrow> p\<lparr>p_limit := Some n\<rparr>
      | Daily metrics \<Rightarrow> p\<lparr>p_period := Some ''day''\<rparr>
      | Weekly metrics \<Rightarrow> p\<lparr>p_period := Some ''week''\<rparr>
      | Monthly metrics \<Rightarrow> p\<lparr>p_period := Some ''days_28''\<rparr>
      | Lifetime metrics \<Rightarrow> p\<lparr>p_period := Some ''lifetime''\<rparr>)"

text \<open>
  The selection \<^verbatim>\<open>page.insights\<close> in an empty store, and the chain
  \<^verbatim>\<open>.daily('a').range('2014-03-01T00:00:00+0000')\<close> of builder calls.
\<close>

definition sample_new :: "store \<times> item list selection" where
  "sample_new =
     Selection_init sample_env sample_clock InsightsSelection sample_edge
       \<lparr>metas = [], paramss = []\<rparr>"

definition sample_chain :: "(clock \<times> call) list" where
  "sample_chain =
     [(sample_clock, Daily (Name ''a'')),
      (sample_clock, Range ''2014-03-01T00:00:00+0000'' None)]"

section \<open>Properties\<close>

subsection \<open>PostSelection.get\<close>

lemma split_on_nonempty: "split_on c s \<noteq> []"
  by (induction s) (auto split: list.splits)

lemma scan_page_accept:
  "list_all2 (\<lambda>raw p. Post_init e a raw = Inr p) items ps \<Longrightarrow>
   list_all (\<lambda>p. since \<le> created_time p) ps \<Longrightarrow>
   scan_page e a since items acc = Inr (False, acc @ ps)"
proof (induction items arbitrary: ps acc)
  case Nil
  then show ?case by simp
next
  case (Cons raw items)
  from Cons.prems(1) obtain p ps' where ps: "ps = p # ps'"
    and p: "Post_init e a raw = Inr p"
    and rest: "list_all2 (\<lambda>raw p. Post_init e a raw = Inr p) items ps'"
    by (auto simp: list_all2_Cons1)
  from Cons.prems(2) ps have ok: "since \<le> created_time p"
    and oks: "list_all (\<lambda>p. since \<le> created_time p) ps'" by simp_all
  show ?case using Cons.IH [OF rest oks, of "acc @ [p]"] p ok ps by simp
qed

lemma scan_page_stop:
  "list_all2 (\<lambda>raw p. Post_init e a raw = Inr p) items ps \<Longrightarrow>
   list_all (\<lambda>p. since \<le> created_time p) ps \<Longrightarrow>
   Post_init e a x = Inr px \<Longrightarrow> created_time px < since \<Longrightarrow>
   scan_page e a since (items @ x # rest) acc = Inr (True, acc @ ps)"
proof (induction items arbitrary: ps acc)
  case Nil
  then show ?case by simp
next
  case (Cons raw items)
  from Cons.prems(1) obtain p ps' where ps: "ps = p # ps'"
    and p: "Post_init e a raw = Inr p"
    and rest: "list_all2 (\<lambda>raw p. Post_init e a raw = Inr p) items ps'"
    by (auto simp: list_all2_Cons1)
  from Cons.prems(2) ps have ok: "since \<le> created_time p"
    and oks: "list_all (\<lambda>p. since \<le> created_time p) ps'" by simp_all
  show ?case
    using Cons.IH [OF rest oks Cons.prems(3) Cons.prems(4), of "acc @ [p]"] p ok ps by simp
qed

lemma scan_pages_exhaust:
  "\<forall>k < length pgs. pages (i + k) = Some (pgs ! k) \<Longrightarrow>
   pages (i + length pgs) = None \<Longrightarrow>
   list_all2 (\<lambda>raw p. Post_init e a raw = Inr p) (concat (map page_data pgs)) ps \<Longrightarrow>
   list_all (\<lambda>p. since \<le> created_time p) ps \<Longrightarrow>
   scan_pages e a since pages i acc = Some (Inr (acc @ ps))"
proof (induction pgs arbitrary: i acc ps)
  case Nil
  then show ?case by (subst scan_pages.simps) simp
next
  case (Cons pg pgs)
  from Cons.prems(1) have here: "pages i = Some pg" by force
  from Cons.prems(1) have later: "\<forall>k < length pgs. pages (Suc i + k) = Some (pgs ! k)" by force
  from Cons.prems(2) have none: "pages (Suc i + length pgs) = None" by simp
  from Cons.prems(3) obtain ps1 ps2 where ps: "ps = ps1 @ ps2"
    and a1: "list_all2 (\<lambda>raw p. Post_init e a raw = Inr p) (page_data pg) ps1"
    and a2: "list_all2 (\<lambda>raw p. Post_init e a raw = Inr p) (concat (map page_data pgs)) ps2"
    by (auto simp: list_all2_append1)
  from Cons.prems(4) ps have o1: "list_all (\<lambda>p. since \<le> created_time p) ps1"
    and o2: "list_all (\<lambda>p. since \<le> created_time p) ps2" by simp_all
  have "scan_pages e a since pages i acc = scan_pages e a since pages (Suc i) (acc @ ps1)"
    by (subst scan_pages.simps) (simp add: here scan_page_accept [OF a1 o1])
  also have "\<dots> = Some (Inr ((acc @ ps1) @ ps2))"
    by (rule Cons.IH [OF later none a2 o2])
  finally show ?case by (simp add: ps)
qed

lemma scan_pages_stop:
  "\<forall>k < length pgs. pages (i + k) = Some (pgs ! k) \<Longrightarrow>
   concat (map page_data pgs) = items @ x # rest \<Longrightarrow>
   list_all2 (\<lambda>raw p. Post_init e a raw = Inr p) items ps \<Longrightarrow>
   list_all (\<lambda>p. since \<le> created_time p) ps \<Longrightarrow>
   Post_init e a x = Inr px \<Longrightarrow> created_time px < since \<Longrightarrow>
   scan_pages e a since pages i acc = Some (Inr (acc @ ps))"
proof (induction pgs arbitrary: i acc items ps)
  case Nil
  then show ?case by simp
next
  case (Cons pg pgs)
  from Cons.prems(1) have here: "pages i = Some pg" by force
  from Cons.prems(1) have later: "\<forall>k < length pgs. pages (Suc i + k) = Some (pgs ! k)" by force
  from Cons.prems(2) have "page_data pg @ concat (map page_data pgs) = items @ x # rest" by simp
  then obtain us where
    "(page_data pg = items @ us \<and> us @ concat (map page_data pgs) = x # rest) \<or>
     (page_data pg @ us = items \<and> concat (map page_data pgs) = us @ x # rest)"
    by (auto simp: append_eq_append_conv2)
  then consider
      (inside) tl' where "page_data pg = items @ x # tl'"
    | (beyond) us where "items = page_data pg @ us" "concat (map page_data pgs) = us @ x # rest"
    by (cases us) auto
  then show ?case
  proof cases
    case inside
    show ?thesis
      by (subst scan_pages.simps)
         (simp add: here inside
            scan_page_stop [OF Cons.prems(3) Cons.prems(4) Cons.prems(5) Cons.prems(6)])
  next
    case beyond
    from Cons.prems(3) beyond(1) obtain ps1 ps2 where ps: "ps = ps1 @ ps2"
      and a1: "list_all2 (\<lambda>raw p. Post_init e a raw = Inr p) (page_data pg) ps1"
      and a2: "list_all2 (\<lambda>raw p. Post_init e a raw = Inr p) us ps2"
      by (auto simp: list_all2_append1)
    from Cons.prems(4) ps have o1: "list_all (\<lambda>p. since \<le> created_time p) ps1"
      and o2: "list_all (\<lambda>p. since \<le> created_time p) ps2" by simp_all
    have "scan_pages e a since pages i acc = scan_pages e a since pages (Suc i) (acc @ ps1)"
      by (subst scan_pages.simps) (simp add: here scan_page_accept [OF a1 o1])
    also have "\<dots> = Some (Inr ((acc @ ps1) @ ps2))"
      by (rule Cons.IH [OF later beyond(2) a2 o2 Cons.prems(5) Cons.prems(6)])
    finally show ?thesis by (simp add: ps)
  qed
qed

text \<open>
  C1. \<^verbatim>\<open>PostSelection.get\<close> issues one call for \<^verbatim>\<open>posts\<close> and scans the pages in order and
  the items of each page in order, constructing a Post per item. Let \<open>pgs\<close> be the first
  pages of the sequence and \<open>items\<close> the items, in that order, that come before the first
  item created before \<^verbatim>\<open>meta['since']\<close>, or all items when the sequence ends after \<open>pgs\<close>
  with no such item. When these items construct the posts \<open>posts\<close>, each created at or
  after the bound, \<^verbatim>\<open>get\<close> returns exactly \<open>posts\<close>: the first item below the bound ends
  the whole fetch, whatever the rest of its page and the later pages hold, even in a
  sequence without end. With \<open>items = []\<close> this is the empty result for a first item below
  the bound.
\<close>

theorem PostSelection_get_stops_at_first_older:
  assumes pages: "\<forall>k < length pgs. PostSelection_pages st self k = Some (pgs ! k)"
    and constructed: "list_all2 (\<lambda>raw p. Post_init e (sel_edge self) raw = Inr p) items posts"
    and accepted: "list_all (\<lambda>p. created_time p \<ge> m_since (the_meta st self)) posts"
    and ends:
      "(PostSelection_pages st self (length pgs) = None \<and> concat (map page_data pgs) = items) \<or>
       (\<exists>x px rest. concat (map page_data pgs) = items @ x # rest \<and>
          Post_init e (sel_edge self) x = Inr px \<and>
          created_time px < m_since (the_meta st self))"
  shows "PostSelection_get e st self sent =
         (Some (Inr posts), sent @ [Get ''posts'' (the_params st self)])"
proof -
  from pages have pages0: "\<forall>k < length pgs. PostSelection_pages st self (0 + k) = Some (pgs ! k)"
    by simp
  from ends have
    "scan_pages e (sel_edge self) (m_since (the_meta st self)) (PostSelection_pages st self) 0 [] =
     Some (Inr ([] @ posts))"
  proof (elim disjE conjE exE)
    assume none: "PostSelection_pages st self (length pgs) = None"
      and all: "concat (map page_data pgs) = items"
    from none have none0: "PostSelection_pages st self (0 + length pgs) = None" by simp
    from constructed all have c:
      "list_all2 (\<lambda>raw p. Post_init e (sel_edge self) raw = Inr p)
         (concat (map page_data pgs)) posts" by simp
    show ?thesis by (rule scan_pages_exhaust [OF pages0 none0 c accepted])
  next
    fix x px rest
    assume split: "concat (map page_data pgs) = items @ x # rest"
      and x: "Post_init e (sel_edge self) x = Inr px"
      and older: "created_time px < m_since (the_meta st self)"
    show ?thesis by (rule scan_pages_stop [OF pages0 split constructed accepted x older])
  qed
  then show ?thesis by (simp add: PostSelection_get_def)
qed

lemma sample_Post_init:
  "Post_init sample_env sample_edge (sample_raw i created) = Inr (sample_post i created)"
  by (simp add: Post_init_def bind_res_def sample_raw_def sample_post_def sample_env_def)

theorem PostSelection_get_stops_at_first_older_witness:
  "PostSelection_get sample_env sample_store sample_posts [] =
     (Some (Inr [sample_post ''p4'' ''2014-03-03T00:00:00+0000'',
                 sample_post ''p3'' ''2014-03-02T00:00:00+0000'',
                 sample_post ''p2'' ''2014-03-01T00:00:00+0000'']),
      [Get ''posts'' (the_params sample_store sample_posts)]) \<and>
   PostSelection_get sample_env sample_store sample_late_posts [] =
     (Some (Inr []), [Get ''posts'' (the_params sample_store sample_late_posts)])"
proof -
  have late_pages: "\<forall>k < length [sample_page1].
      PostSelection_pages sample_store sample_late_posts k = Some ([sample_page1] ! k)"
    by (simp add: PostSelection_pages_def the_params_def sample_store_def
        sample_late_posts_def sel_graph_def sample_edge_def sample_graph_def)
  have late_none:
    "list_all2 (\<lambda>raw p. Post_init sample_env (sel_edge sample_late_posts) raw = Inr p) [] []"
    "list_all (\<lambda>p. created_time p \<ge> m_since (the_meta sample_store sample_late_posts)) []"
    by simp_all
  have late_older: "created_time (sample_post ''p4'' ''2014-03-03T00:00:00+0000'')
      < m_since (the_meta sample_store sample_late_posts)"
    by (simp add: sample_post_def sample_parse_def the_meta_def sample_store_def
        sample_late_posts_def)
  have late_ends:
    "(PostSelection_pages sample_store sample_late_posts (length [sample_page1]) = None \<and>
      concat (map page_data [sample_page1]) = []) \<or>
     (\<exists>x px rest. concat (map page_data [sample_page1]) = [] @ x # rest \<and>
        Post_init sample_env (sel_edge sample_late_posts) x = Inr px \<and>
        created_time px < m_since (the_meta sample_store sample_late_posts))"
    using late_older
    by (intro disjI2 exI [of _ "sample_raw ''p4'' ''2014-03-03T00:00:00+0000''"]
          exI [of _ "sample_post ''p4'' ''2014-03-03T00:00:00+0000''"]
          exI [of _ "[sample_raw ''p3'' ''2014-03-02T00:00:00+0000'']"])
       (simp add: sample_page1_def sample_Post_init sample_late_posts_def)
  have late: "PostSelection_get sample_env sample_store sample_late_posts [] =
     (Some (Inr []), [Get ''posts'' (the_params sample_store sample_late_posts)])"
    using PostSelection_get_stops_at_first_older
      [OF late_pages late_none(1) late_none(2) late_ends, of "[]"]
    by simp
  have pages: "\<forall>k < length [sample_page1, sample_page2].
      PostSelection_pages sample_store sample_posts k = Some ([sample_page1, sample_page2] ! k)"
    by (simp add: PostSelection_pages_def the_params_def sample_store_def sample_posts_def
        sel_graph_def sample_edge_def sample_graph_def less_Suc_eq)
  have constructed:
    "list_all2 (\<lambda>raw p. Post_init sample_env (sel_edge sample_posts) raw = Inr p)
       [sample_raw ''p4'' ''2014-03-03T00:00:00+0000'',
        sample_raw ''p3'' ''2014-03-02T00:00:00+0000'',
        sample_raw ''p2'' ''2014-03-01T00:00:00+0000'']
       [sample_post ''p4'' ''2014-03-03T00:00:00+0000'',
        sample_post ''p3'' ''2014-03-02T00:00:00+0000'',
        sample_post ''p2'' ''2014-03-01T00:00:00+0000'']"
    by (simp add: sample_Post_init sample_posts_def)
  have accepted:
    "list_all (\<lambda>p. created_time p \<ge> m_since (the_meta sample_store sample_posts))
       [sample_post ''p4'' ''2014-03-03T00:00:00+0000'',
        sample_post ''p3'' ''2014-03-02T00:00:00+0000'',
        sample_post ''p2'' ''2014-03-01T00:00:00+0000'']"
    by (simp add: sample_post_def sample_parse_def the_meta_def sample_store_def sample_posts_def)
  have older: "created_time (sample_post ''p1'' ''2014-02-01T00:00:00+0000'')
      < m_since (the_meta sample_store sample_posts)"
    by (simp add: sample_post_def sample_parse_def the_meta_def sample_store_def sample_posts_def)
  have ends:
    "(PostSelection_pages sample_store sample_posts (length [sample_page1, sample_page2]) = None \<and>
      concat (map page_data [sample_page1, sample_page2]) =
        [sample_raw ''p4'' ''2014-03-03T00:00:00+0000'',
         sample_raw ''p3'' ''2014-03-02T00:00:00+0000'',
         sample_raw ''p2'' ''2014-03-01T00:00:00+0000'']) \<or>
     (\<exists>x px rest. concat (map page_data [sample_page1, sample_page2]) =
        [sample_raw ''p4'' ''2014-03-03T00:00:00+0000'',
         sample_raw ''p3'' ''2014-03-02T00:00:00+0000'',
         sample_raw ''p2'' ''2014-03-01T00:00:00+0000''] @ x # rest \<and>
        Post_init sample_env (sel_edge sample_posts) x = Inr px \<and>
        created_time px < m_since (the_meta sample_store sample_posts))"
    using older
    by (intro disjI2 exI [of _ "sample_raw ''p1'' ''2014-02-01T00:00:00+0000''"]
          exI [of _ "sample_post ''p1'' ''2014-02-01T00:00:00+0000''"] exI [of _ "[]"])
       (simp add: sample_page1_def sample_page2_def sample_Post_init sample_posts_def)
  show ?thesis
    using PostSelection_get_stops_at_first_older [OF pages constructed accepted ends, of "[]"]
      late
    by simp
qed

subsection \<open>InsightsSelection.get: the size of the range\<close>




lemma Row_new_error: "Row_new names time values = Inl err \<Longrightarrow> err = TypeError"
  by (auto simp: Row_new_def Let_def split: if_splits)








subsection \<open>InsightsSelection.get: the pivot and the rows\<close>

lemma setdefault_keys: "fst ` set (setdefault d k v) = insert k (fst ` set d)"
  by (auto simp: setdefault_def)

lemma setdefault_distinct: "distinct (map fst d) \<Longrightarrow> distinct (map fst (setdefault d k v))"
  by (auto simp: setdefault_def)

lemma setdefault_map_of:
  "map_of (setdefault d k v) k' =
     (if k' = k then Some (case map_of d k of None \<Rightarrow> v | Some w \<Rightarrow> w) else map_of d k')"
proof (cases "k \<in> fst ` set d")
  case True
  then obtain w where "map_of d k = Some w"
    by (cases "map_of d k") (auto simp: map_of_eq_None_iff)
  with True show ?thesis by (simp add: setdefault_def)
next
  case False
  then have "map_of d k = None" by (simp add: map_of_eq_None_iff)
  with False show ?thesis by (simp add: setdefault_def map_add_def split: option.splits)
qed

lemma pivot_values_keys:
  "fst ` set (pivot_values e metric rows data) = fst ` set data \<union> bucket_key e ` set rows"
  by (induction rows arbitrary: data) (auto simp: AList.dom_map_entry setdefault_keys)

lemma pivot_values_distinct:
  "distinct (map fst data) \<Longrightarrow> distinct (map fst (pivot_values e metric rows data))"
  by (induction rows arbitrary: data)
     (auto simp: AList.distinct_map_entry setdefault_distinct)

lemma pivot_values_metrics_at:
  "metrics_at (pivot_values e metric rows data) k =
     metrics_at data k \<union> (if k \<in> bucket_key e ` set rows then {metric} else {})"
proof (induction rows arbitrary: data)
  case Nil
  then show ?case by simp
next
  case (Cons r rows)
  have step: "metrics_at (AList.map_entry (bucket_key e r) (AList.update metric (v_value r))
          (setdefault data (bucket_key e r) [])) k =
        metrics_at data k \<union> (if k = bucket_key e r then {metric} else {})"
    by (auto simp: metrics_at_def AList.map_of_map_entry setdefault_map_of AList.dom_update
        split: option.splits)
  show ?case by (auto simp: Cons.IH step)
qed

lemma pivot_fields: "fst (pivot e datasets fieldnames data) = fieldnames @ map d_name datasets"
  by (induction datasets arbitrary: fieldnames data) auto

lemma pivot_keys:
  "fst ` set (snd (pivot e datasets fieldnames data)) =
     fst ` set data \<union> bucket_key e ` (\<Union>ds \<in> set datasets. set (d_values ds))"
  by (induction datasets arbitrary: fieldnames data) (auto simp: pivot_values_keys)

lemma pivot_distinct:
  "distinct (map fst data) \<Longrightarrow> distinct (map fst (snd (pivot e datasets fieldnames data)))"
  by (induction datasets arbitrary: fieldnames data) (auto simp: pivot_values_distinct)

lemma pivot_metrics_at:
  "metrics_at (snd (pivot e datasets fieldnames data)) k =
     metrics_at data k \<union>
     {d_name ds | ds. ds \<in> set datasets \<and> k \<in> bucket_key e ` set (d_values ds)}"
  by (induction datasets arbitrary: fieldnames data) (auto simp: pivot_values_metrics_at)

lemma check_seen_distinct:
  "check_seen seen names = None \<Longrightarrow> distinct names \<and> set names \<inter> set seen = {}"
proof (induction names arbitrary: seen)
  case Nil
  then show ?case by simp
next
  case (Cons a names)
  from Cons.prems have a: "a \<notin> set seen" and rest: "check_seen (a # seen) names = None"
    by (auto split: if_splits)
  from Cons.IH [OF rest] have "distinct names" and "set names \<inter> set (a # seen) = {}"
    by simp_all
  with a show ?case by auto
qed

lemma namedtuple_distinct: "namedtuple t names = Inr fs \<Longrightarrow> fs = names \<and> distinct names"
  by (auto simp: namedtuple_def split: option.splits dest: check_seen_distinct)

lemma Row_new_missing:
  "m \<in> set fieldnames \<Longrightarrow> m \<noteq> ''end_time'' \<Longrightarrow> m \<notin> fst ` set vals \<Longrightarrow>
   Row_new fieldnames k vals = Inl TypeError"
  by (auto simp: Row_new_def Let_def list_all_iff image_iff)

lemma make_rows_fails:
  "\<exists>b \<in> set data. Row_new Row (fst b) (snd b) = Inl TypeError \<Longrightarrow>
   make_rows Row data rows = Inl TypeError"
proof (induction data arbitrary: rows)
  case Nil
  then show ?case by simp
next
  case (Cons b data)
  show ?case
  proof (cases "Row_new Row (fst b) (snd b)")
    case (Inl err)
    then show ?thesis by (auto simp: bind_res_def dest: Row_new_error)
  next
    case (Inr r)
    with Cons.prems have "\<exists>b \<in> set data. Row_new Row (fst b) (snd b) = Inl TypeError" by auto
    from Cons.IH [OF this] Inr show ?thesis by (simp add: bind_res_def)
  qed
qed

lemma sample_insights_eval:
  "requested_days sample_insights_store sample_a_b \<le> 93"
  "fetch_insights sample_insights_store sample_a_b [] =
     (map sample_metric [''a'', ''b''],
      [All ''insights'' [''a'', ''b''] (the_params sample_insights_store sample_a_b)])"
  "pivot sample_env (concat (map res_data (map sample_metric [''a'', ''b'']))) [''end_time''] [] =
     ([''end_time'', ''a'', ''b''],
      [(PDatetime 1393632000000000, [(''a'', JNum 1)]),
       (PDatetime 1393718400000000, [(''a'', JNum 2), (''b'', JNum 3)])])"
  "namedtuple ''Row'' [''end_time'', ''a'', ''b''] = Inr [''end_time'', ''a'', ''b'']"
  by (simp_all add: requested_days_def has_daterange_def total_seconds_def fetch_insights_def
      the_meta_def the_params_def sel_graph_def sample_insights_store_def sample_insights_def
      sample_a_b_def sample_edge_def sample_graph_def sample_metric_def sample_env_def sample_parse_def
      bucket_key_def setdefault_def namedtuple_def check_name_def isalnum_def isdigit_def
      kwlist_def)

text \<open>
  C3, the claim as it stands, fails. The selection at address 1 of the sample store asks
  for the metrics \<^verbatim>\<open>["a", "b"]\<close>, and the fetched datasets pivot to the two buckets
  \<^verbatim>\<open>{t1: {a: 1}, t2: {a: 2, b: 3}}\<close> with the field order \<^verbatim>\<open>[end_time, a, b]\<close>; \<^verbatim>\<open>get\<close>
  then returns no rows: it raises \<open>TypeError\<close>.
\<close>

theorem InsightsSelection_get_missing_metric_counterexample:
  "m_metrics (the_meta sample_insights_store sample_a_b) = Some [''a'', ''b''] \<and>
   pivot sample_env
     (concat (map res_data
        (fst (fetch_insights sample_insights_store sample_a_b []))))
     [''end_time''] [] =
     ([''end_time'', ''a'', ''b''],
      [(PDatetime 1393632000000000, [(''a'', JNum 1)]),
       (PDatetime 1393718400000000, [(''a'', JNum 2), (''b'', JNum 3)])]) \<and>
   fst (InsightsSelection_get sample_env sample_insights_store sample_a_b []) =
     Inl TypeError"
  by (simp add: InsightsSelection_get_def requested_days_def has_daterange_def
      total_seconds_def fetch_insights_def the_meta_def the_params_def sel_graph_def
      sample_insights_store_def sample_insights_def sample_a_b_def sample_edge_def
      sample_graph_def sample_metric_def sample_env_def sample_parse_def bucket_key_def
      setdefault_def namedtuple_def check_name_def isalnum_def isdigit_def kwlist_def
      Row_new_def bind_res_def)

text \<open>
  C3, amended. \<^verbatim>\<open>InsightsSelection.get\<close> pivots the fetched datasets into buckets keyed by
  the parsed \<^verbatim>\<open>end_time\<close> of a value row, or by the string \<^verbatim>\<open>'lifetime'\<close> when the row has
  no \<^verbatim>\<open>end_time\<close> or an empty one; the field order is \<^verbatim>\<open>end_time\<close> followed by the names
  of the datasets in the order fetched; a bucket holds exactly the metrics whose dataset
  has a value row with that key. A Row needs a value for every field: when the field
  names are accepted by \<^verbatim>\<open>namedtuple\<close> and some bucket lacks one of the metrics, \<^verbatim>\<open>get\<close>
  raises \<open>TypeError\<close> and returns no rows. For the metrics \<^verbatim>\<open>["a", "b"]\<close> and the buckets
  \<^verbatim>\<open>{t1: {a: 1}, t2: {a: 2, b: 3}}\<close> the field order is \<^verbatim>\<open>[end_time, a, b]\<close> and \<^verbatim>\<open>get\<close>
  raises \<open>TypeError\<close> for the bucket \<^verbatim>\<open>t1\<close>.
\<close>

theorem InsightsSelection_get_row_needs_every_metric:
  assumes days: "requested_days st self \<le> 93"
    and fetched: "fetch_insights st self sent = (results, sent1)"
    and pivoted: "pivot e (concat (map res_data results)) [''end_time''] [] = (fieldnames, data)"
  shows
    "fieldnames = ''end_time'' # map d_name (concat (map res_data results)) \<and>
     fst ` set data =
       bucket_key e ` (\<Union>ds \<in> set (concat (map res_data results)). set (d_values ds)) \<and>
     (\<forall>r. bucket_key e r =
        (if v_end_time r = None \<or> v_end_time r = Some [] then PStr ''lifetime''
         else PDatetime (parse e (the (v_end_time r))))) \<and>
     (\<forall>k vals. (k, vals) \<in> set data \<longrightarrow>
        fst ` set vals =
          {d_name ds | ds. ds \<in> set (concat (map res_data results)) \<and>
             k \<in> bucket_key e ` set (d_values ds)}) \<and>
     (namedtuple ''Row'' fieldnames = Inr fieldnames \<and>
      (\<exists>b \<in> set data. \<exists>m \<in> set (tl fieldnames). m \<notin> fst ` set (snd b)) \<longrightarrow>
        InsightsSelection_get e st self sent = (Inl TypeError, sent1))"
proof (intro conjI allI impI)
  let ?datasets = "concat (map res_data results)"
  from pivoted have fs: "fst (pivot e ?datasets [''end_time''] []) = fieldnames"
    and ds: "snd (pivot e ?datasets [''end_time''] []) = data" by simp_all
  show names: "fieldnames = ''end_time'' # map d_name ?datasets"
    using pivot_fields [of e ?datasets "[''end_time'']" "[]"] fs by simp
  show "fst ` set data = bucket_key e ` (\<Union>ds \<in> set ?datasets. set (d_values ds))"
    using pivot_keys [of e ?datasets "[''end_time'']" "[]"] ds by simp
  show "bucket_key e r =
        (if v_end_time r = None \<or> v_end_time r = Some [] then PStr ''lifetime''
         else PDatetime (parse e (the (v_end_time r))))" for r
    by (auto simp: bucket_key_def split: option.splits)
  show "fst ` set vals =
          {d_name ds | ds. ds \<in> set ?datasets \<and> k \<in> bucket_key e ` set (d_values ds)}"
    if "(k, vals) \<in> set data" for k vals
  proof -
    have "distinct (map fst data)"
      using pivot_distinct [of "[]" e ?datasets "[''end_time'']"] ds by simp
    with that have "map_of data k = Some vals" by simp
    then have "metrics_at data k = fst ` set vals" by (simp add: metrics_at_def)
    with pivot_metrics_at [of e ?datasets "[''end_time'']" "[]" k] ds show ?thesis
      by (simp add: metrics_at_def)
  qed
  show "InsightsSelection_get e st self sent = (Inl TypeError, sent1)"
    if bad: "namedtuple ''Row'' fieldnames = Inr fieldnames \<and>
      (\<exists>b \<in> set data. \<exists>m \<in> set (tl fieldnames). m \<notin> fst ` set (snd b))"
  proof -
    from bad have valid: "namedtuple ''Row'' fieldnames = Inr fieldnames" by simp
    from namedtuple_distinct [OF valid] have dist: "distinct fieldnames" by simp
    from bad obtain b m where b: "b \<in> set data" and m: "m \<in> set (tl fieldnames)"
      and missing: "m \<notin> fst ` set (snd b)" by blast
    from names obtain rest where shape: "fieldnames = ''end_time'' # rest" by blast
    from m shape have "m \<in> set rest" by simp
    with dist shape have "m \<in> set fieldnames" and "m \<noteq> ''end_time''" by auto
    from Row_new_missing [OF this missing]
    have "Row_new fieldnames (fst b) (snd b) = Inl TypeError" .
    with b have "\<exists>b \<in> set data. Row_new fieldnames (fst b) (snd b) = Inl TypeError" by blast
    from make_rows_fails [OF this] have "make_rows fieldnames data [] = Inl TypeError" .
    with days fetched pivoted valid show ?thesis
      by (simp add: InsightsSelection_get_def bind_res_def)
  qed
qed

theorem InsightsSelection_get_row_needs_every_metric_witness:
  "InsightsSelection_get sample_env sample_insights_store sample_a_b [] =
     (Inl TypeError,
      [All ''insights'' [''a'', ''b''] (the_params sample_insights_store sample_a_b)])"
proof -
  note T = InsightsSelection_get_row_needs_every_metric
    [OF sample_insights_eval(1) sample_insights_eval(2) sample_insights_eval(3)]
  have "\<exists>b \<in> set [(PDatetime 1393632000000000, [(''a'', JNum 1)]),
       (PDatetime (1393718400000000::int), [(''a'', JNum 2), (''b'', JNum 3)])].
      \<exists>m \<in> set (tl [''end_time'', ''a'', ''b'']). m \<notin> fst ` set (snd b)"
    by simp
  with T sample_insights_eval(4) show ?thesis by blast
qed

subsection \<open>InsightsSelection.serialize\<close>



lemma asdicts_Plain: "asdicts (Plain v # items) = Inl (AttributeError ''_asdict'')"
  by (simp add: asdict_def bind_res_def)







subsection \<open>Picture\<close>

text \<open>
  C9. \<^verbatim>\<open>Picture.__init__\<close> tells the proxied form by the parameter \<^verbatim>\<open>url\<close> alone. Without
  it, the whole string is the origin and the dimensions stay unset, and nothing is raised;
  with \<^verbatim>\<open>url\<close>, \<^verbatim>\<open>w\<close> and \<^verbatim>\<open>h\<close> all present, the origin and the dimensions are the first
  values of the three parameters. With \<^verbatim>\<open>url\<close> present and \<^verbatim>\<open>w\<close> or \<^verbatim>\<open>h\<close> absent, the
  constructor raises \<open>KeyError\<close>: the claim that it never raises fails there.
\<close>

theorem Picture_init_cases:
  assumes qs: "parse_qs e (urlparse_query e raw) = qs"
  shows
    "(''url'' \<notin> fst ` set qs \<longrightarrow>
        Picture_init e raw =
          Inr \<lparr>pic_raw = raw, pic_url = raw, pic_qs = qs, pic_origin = raw,
               pic_width = None, pic_height = None,
               pic_basename = last (split_on CHR ''/'' raw)\<rparr>) \<and>
     (\<forall>u us w ws h hs.
        map_of qs ''url'' = Some (u # us) \<and> map_of qs ''w'' = Some (w # ws) \<and>
        map_of qs ''h'' = Some (h # hs) \<longrightarrow>
        Picture_init e raw =
          Inr \<lparr>pic_raw = raw, pic_url = raw, pic_qs = qs, pic_origin = u,
               pic_width = Some w, pic_height = Some h,
               pic_basename = last (split_on CHR ''/'' u)\<rparr>) \<and>
     (\<forall>u us. map_of qs ''url'' = Some (u # us) \<and> map_of qs ''w'' = None \<longrightarrow>
        Picture_init e raw = Inl (KeyError ''w'')) \<and>
     (\<forall>u us w ws.
        map_of qs ''url'' = Some (u # us) \<and> map_of qs ''w'' = Some (w # ws) \<and>
        map_of qs ''h'' = None \<longrightarrow>
        Picture_init e raw = Inl (KeyError ''h''))"
proof -
  have key: "''url'' \<in> fst ` set qs" if "map_of qs ''url'' = Some v" for v
  proof -
    from that have "(''url'', v) \<in> set qs" by (rule map_of_SomeD)
    then show ?thesis by force
  qed
  show ?thesis
    using qs by (auto simp: Picture_init_def Let_def bind_res_def getitem_def first_def key)
qed

theorem Picture_init_cases_witness:
  "Picture_init sample_env
     ''https://external.example/safe_image.php?url=http%3A%2F%2Fexample.com%2Fimg%2Fa.jpg'' =
     Inl (KeyError ''w'') \<and>
   Picture_init sample_env
     ''https://external.example/safe_image.php?w=130&h=130&url=http%3A%2F%2Fexample.com%2Fimg%2Fa.jpg'' =
     Inr \<lparr>pic_raw = ''https://external.example/safe_image.php?w=130&h=130&url=http%3A%2F%2Fexample.com%2Fimg%2Fa.jpg'',
          pic_url = ''https://external.example/safe_image.php?w=130&h=130&url=http%3A%2F%2Fexample.com%2Fimg%2Fa.jpg'',
          pic_qs = [(''w'', [''130'']), (''h'', [''130'']),
                    (''url'', [''http://example.com/img/a.jpg''])],
          pic_origin = ''http://example.com/img/a.jpg'',
          pic_width = Some ''130'', pic_height = Some ''130'', pic_basename = ''a.jpg''\<rparr> \<and>
   Picture_init sample_env ''http://example.com/img/b.png'' =
     Inr \<lparr>pic_raw = ''http://example.com/img/b.png'', pic_url = ''http://example.com/img/b.png'',
          pic_qs = [], pic_origin = ''http://example.com/img/b.png'',
          pic_width = None, pic_height = None, pic_basename = ''b.png''\<rparr>"
proof -
  have q1: "parse_qs sample_env (urlparse_query sample_env
      ''https://external.example/safe_image.php?url=http%3A%2F%2Fexample.com%2Fimg%2Fa.jpg'') =
      [(''url'', [''http://example.com/img/a.jpg''])]"
    by (simp add: sample_env_def sample_parse_qs_def)
  have q2: "parse_qs sample_env (urlparse_query sample_env
      ''https://external.example/safe_image.php?w=130&h=130&url=http%3A%2F%2Fexample.com%2Fimg%2Fa.jpg'') =
      [(''w'', [''130'']), (''h'', [''130'']), (''url'', [''http://example.com/img/a.jpg''])]"
    by (simp add: sample_env_def sample_parse_qs_def)
  have q3: "parse_qs sample_env (urlparse_query sample_env ''http://example.com/img/b.png'') = []"
    by (simp add: sample_env_def sample_parse_qs_def)
  from Picture_init_cases [OF q1] have r1: "Picture_init sample_env
     ''https://external.example/safe_image.php?url=http%3A%2F%2Fexample.com%2Fimg%2Fa.jpg'' =
     Inl (KeyError ''w'')" by simp
  from Picture_init_cases [OF q2] have r2: "Picture_init sample_env
     ''https://external.example/safe_image.php?w=130&h=130&url=http%3A%2F%2Fexample.com%2Fimg%2Fa.jpg'' =
     Inr \<lparr>pic_raw = ''https://external.example/safe_image.php?w=130&h=130&url=http%3A%2F%2Fexample.com%2Fimg%2Fa.jpg'',
          pic_url = ''https://external.example/safe_image.php?w=130&h=130&url=http%3A%2F%2Fexample.com%2Fimg%2Fa.jpg'',
          pic_qs = [(''w'', [''130'']), (''h'', [''130'']),
                    (''url'', [''http://example.com/img/a.jpg''])],
          pic_origin = ''http://example.com/img/a.jpg'',
          pic_width = Some ''130'', pic_height = Some ''130'', pic_basename = ''a.jpg''\<rparr>"
    by simp
  from Picture_init_cases [OF q3] have r3: "Picture_init sample_env ''http://example.com/img/b.png'' =
     Inr \<lparr>pic_raw = ''http://example.com/img/b.png'', pic_url = ''http://example.com/img/b.png'',
          pic_qs = [], pic_origin = ''http://example.com/img/b.png'',
          pic_width = None, pic_height = None, pic_basename = ''b.png''\<rparr>"
    by simp
  from r1 r2 r3 show ?thesis by blast
qed

subsection \<open>Builder calls: clone, then update the clone\<close>

lemma update_meta_twice:
  "update_meta (update_meta st a f) a g = update_meta st a (\<lambda>m. g (f m))"
  by (cases "a < length (metas st)") (simp_all add: update_meta_def list_update_beyond)

lemma update_params_twice:
  "update_params (update_params st a f) a g = update_params st a (\<lambda>p. g (f p))"
  by (cases "a < length (paramss st)") (simp_all add: update_params_def list_update_beyond)

lemma update_params_meta:
  "update_params (update_meta st a f) b g = update_meta (update_params st b g) a f"
  by (simp add: update_meta_def update_params_def)

lemma range_body_eq:
  "range_body e clk since until st self =
     (update_params
        (update_meta st (sel_meta self)
           (\<lambda>m. m\<lparr>m_since := parse_utc e since,
                   m_until := parse_utc e (default_until clk until)\<rparr>))
        (sel_params self)
        (\<lambda>p. p\<lparr>p_page := True, p_since := Some (timestamp e since),
                p_until := Some (timestamp e (default_until clk until))\<rparr>),
      self)"
  by (simp add: range_body_def default_until_def Let_def update_meta_twice update_params_twice)

lemma update_meta_id: "update_meta st a (\<lambda>m. m) = st"
  by (simp add: update_meta_def)

lemma metrics_helper_eq:
  "metrics_helper ids st self = (update_meta st (sel_meta self) (metrics_delta ids), self)"
proof -
  have delta: "metrics_delta i =
     (case i of
        Omitted \<Rightarrow> (\<lambda>m. m)
      | Name n \<Rightarrow> if n = [] then (\<lambda>m. m)
          else (\<lambda>m. m\<lparr>m_single := Some True, m_metrics := Some [n]\<rparr>)
      | Names ns \<Rightarrow> if ns = [] then (\<lambda>m. m)
          else (\<lambda>m. m\<lparr>m_single := Some False, m_metrics := Some ns\<rparr>))" for i
    by (auto simp: metrics_delta_def fun_eq_iff split: metrics_arg.splits)
  show ?thesis
    by (cases ids)
       (simp_all add: delta metrics_helper_def truthy_def Let_def update_meta_twice
          update_meta_id)
qed

lemma period_body_eq:
  "period_body tag ids st self =
     (update_params (update_meta st (sel_meta self) (metrics_delta ids)) (sel_params self)
        (\<lambda>p. p\<lparr>p_period := Some tag\<rparr>), self)"
  by (simp add: period_body_def metrics_helper_eq update_params_meta)

lemma latest_body_eq:
  "latest_body n st self =
     (update_params (update_meta st (sel_meta self) (\<lambda>m. m)) (sel_params self)
        (\<lambda>p. p\<lparr>p_limit := Some n\<rparr>), self)"
  by (simp add: latest_body_def update_meta_id)

lemma clone_eq:
  "clone e clk st self =
     (st\<lparr>metas := metas st @ [init_meta e clk, (metas st @ [init_meta e clk]) ! sel_meta self],
         paramss := paramss st @ [init_params, (paramss st @ [init_params]) ! sel_params self]\<rparr>,
      \<lparr>sel_class = sel_class self, sel_edge = sel_edge self,
       sel_meta = Suc (length (metas st)), sel_params = Suc (length (paramss st)),
       sel_results = None\<rparr>)"
  by (simp add: clone_def Selection_init_def alloc_meta_def alloc_params_def Let_def
      the_meta_def the_params_def init_meta_def init_params_def)

lemma immutable_in_place:
  "immutable e clk
     (\<lambda>st obj. (update_params (update_meta st (sel_meta obj) fm) (sel_params obj) fp, obj))
     st self =
     (st\<lparr>metas := metas st @
           [init_meta e clk, fm ((metas st @ [init_meta e clk]) ! sel_meta self)],
         paramss := paramss st @
           [init_params, fp ((paramss st @ [init_params]) ! sel_params self)]\<rparr>,
      \<lparr>sel_class = sel_class self, sel_edge = sel_edge self,
       sel_meta = Suc (length (metas st)), sel_params = Suc (length (paramss st)),
       sel_results = None\<rparr>)"
  by (simp add: immutable_def clone_eq update_meta_def update_params_def nth_append
      list_update_append)


lemma prefix_nth: "prefix xs ys \<Longrightarrow> i < length xs \<Longrightarrow> ys ! i = xs ! i"
  by (auto simp: prefix_def nth_append)

lemma fresh_copy_trans:
  "fresh_copy st self st1 s1 \<Longrightarrow> fresh_copy st1 s1 st2 s2 \<Longrightarrow> fresh_copy st self st2 s2"
  unfolding fresh_copy_def
  by (auto dest: prefix_length_le intro: prefix_order.trans)

lemma fresh_copy_valid: "fresh_copy st self st' s' \<Longrightarrow> valid st' s'"
  by (simp add: fresh_copy_def valid_def)

lemma fresh_copy_frame:
  "fresh_copy st self st' s' \<Longrightarrow> valid st self \<Longrightarrow>
   the_meta st' self = the_meta st self \<and> the_params st' self = the_params st self"
  by (simp add: fresh_copy_def valid_def the_meta_def the_params_def prefix_nth)

lemma in_place_result:
  assumes v: "valid st self"
    and r: "immutable e clk
       (\<lambda>st obj. (update_params (update_meta st (sel_meta obj) fm) (sel_params obj) fp, obj))
       st self = (st', s')"
  shows "fresh_copy st self st' s' \<and> the_meta st' s' = fm (the_meta st self) \<and>
         the_params st' s' = fp (the_params st self) \<and> sel_results s' = None"
  using v r unfolding immutable_in_place
  by (auto simp: fresh_copy_def valid_def the_meta_def the_params_def nth_append)

lemma clone_as_immutable:
  "clone e clk st self =
     immutable e clk
       (\<lambda>st obj. (update_params (update_meta st (sel_meta obj) (\<lambda>m. m)) (sel_params obj)
          (\<lambda>p. p), obj)) st self"
  by (simp add: immutable_def update_meta_def update_params_def split: prod.splits)

lemma clone_result:
  assumes "valid st self" and "clone e clk st self = (st', s')"
  shows "fresh_copy st self st' s' \<and> the_meta st' s' = the_meta st self \<and>
         the_params st' s' = the_params st self \<and> sel_results s' = None"
  using in_place_result [OF assms(1), of e clk "\<lambda>m. m" "\<lambda>p. p" st' s'] assms(2)
  by (simp add: clone_as_immutable)

lemma range_result:
  assumes "valid st self" and "Selection_range e clk since until st self = (st', s')"
  shows "fresh_copy st self st' s' \<and>
         the_meta st' s' = spec_meta_after e clk (Range since until) (the_meta st self) \<and>
         the_params st' s' = spec_params_after e clk (Range since until) (the_params st self) \<and>
         sel_results s' = None"
proof -
  have body: "range_body e clk since until =
     (\<lambda>st obj. (update_params
        (update_meta st (sel_meta obj)
           (\<lambda>m. m\<lparr>m_since := parse_utc e since,
                   m_until := parse_utc e (default_until clk until)\<rparr>))
        (sel_params obj)
        (\<lambda>p. p\<lparr>p_page := True, p_since := Some (timestamp e since),
                p_until := Some (timestamp e (default_until clk until))\<rparr>), obj))"
    by (intro ext) (rule range_body_eq)
  from assms(2) show ?thesis
    unfolding Selection_range_def body
    by (auto dest!: in_place_result [OF assms(1)]
        simp: spec_meta_after_def spec_params_after_def)
qed

lemma since_result:
  assumes "valid st self" and "Selection_since e clk date st self = (st', s')"
  shows "fresh_copy st self st' s' \<and>
         the_meta st' s' = spec_meta_after e clk (Since date) (the_meta st self) \<and>
         the_params st' s' = spec_params_after e clk (Since date) (the_params st self) \<and>
         sel_results s' = None"
proof -
  obtain st1 obj where c: "clone e clk st self = (st1, obj)" by (cases "clone e clk st self")
  from clone_result [OF assms(1) c] have fc1: "fresh_copy st self st1 obj"
    and m1: "the_meta st1 obj = the_meta st self"
    and p1: "the_params st1 obj = the_params st self" by simp_all
  from assms(2) c have r: "Selection_range e clk date None st1 obj = (st', s')"
    by (simp add: Selection_since_def immutable_def)
  from range_result [OF fresh_copy_valid [OF fc1] r] fc1 m1 p1 show ?thesis
    by (auto intro: fresh_copy_trans
        simp: spec_meta_after_def spec_params_after_def default_until_def)
qed

lemma latest_result:
  assumes "valid st self" and "PostSelection_latest e clk n st self = (st', s')"
  shows "fresh_copy st self st' s' \<and>
         the_meta st' s' = spec_meta_after e clk (Latest n) (the_meta st self) \<and>
         the_params st' s' = spec_params_after e clk (Latest n) (the_params st self) \<and>
         sel_results s' = None"
proof -
  have body: "latest_body n =
     (\<lambda>st obj. (update_params (update_meta st (sel_meta obj) (\<lambda>m. m)) (sel_params obj)
        (\<lambda>p. p\<lparr>p_limit := Some n\<rparr>), obj))"
    by (intro ext) (rule latest_body_eq)
  from assms(2) show ?thesis
    unfolding PostSelection_latest_def body
    by (auto dest!: in_place_result [OF assms(1)]
        simp: spec_meta_after_def spec_params_after_def)
qed

lemma period_result:
  assumes "valid st self" and "immutable e clk (period_body tag ids) st self = (st', s')"
  shows "fresh_copy st self st' s' \<and>
         the_meta st' s' = metrics_delta ids (the_meta st self) \<and>
         the_params st' s' = (the_params st self)\<lparr>p_period := Some tag\<rparr> \<and>
         sel_results s' = None"
proof -
  have body: "period_body tag ids =
     (\<lambda>st obj. (update_params (update_meta st (sel_meta obj) (metrics_delta ids))
        (sel_params obj) (\<lambda>p. p\<lparr>p_period := Some tag\<rparr>), obj))"
    by (intro ext) (rule period_body_eq)
  from assms(2) show ?thesis
    unfolding body by (auto dest!: in_place_result [OF assms(1)])
qed

lemma builder_result:
  assumes v: "valid st self" and b: "builder e clk c st self = Inr (st', s')"
  shows "fresh_copy st self st' s' \<and>
         the_meta st' s' = spec_meta_after e clk c (the_meta st self) \<and>
         the_params st' s' = spec_params_after e clk c (the_params st self) \<and>
         sel_results s' = None"
proof (cases c)
  case (Range since until)
  with b range_result [OF v, of e clk since until st' s'] show ?thesis
    by (simp add: builder_def)
next
  case (Since date)
  with b since_result [OF v, of e clk date st' s'] show ?thesis
    by (simp add: builder_def)
next
  case (Latest n)
  with b latest_result [OF v, of e clk n st' s'] show ?thesis
    by (simp add: builder_def split: if_splits)
next
  case (Daily ids)
  with b period_result [OF v, of e clk "''day''" ids st' s'] show ?thesis
    by (simp add: builder_def InsightsSelection_daily_def spec_meta_after_def
        spec_params_after_def split: if_splits)
next
  case (Weekly ids)
  with b period_result [OF v, of e clk "''week''" ids st' s'] show ?thesis
    by (simp add: builder_def InsightsSelection_weekly_def spec_meta_after_def
        spec_params_after_def split: if_splits)
next
  case (Monthly ids)
  with b period_result [OF v, of e clk "''days_28''" ids st' s'] show ?thesis
    by (simp add: builder_def InsightsSelection_monthly_def spec_meta_after_def
        spec_params_after_def split: if_splits)
next
  case (Lifetime ids)
  with b period_result [OF v, of e clk "''lifetime''" ids st' s'] show ?thesis
    by (simp add: builder_def InsightsSelection_lifetime_def spec_meta_after_def
        spec_params_after_def split: if_splits)
qed

text \<open>
  C5. \<^verbatim>\<open>clone\<close> and every builder call (\<^verbatim>\<open>range\<close>, \<^verbatim>\<open>since\<close>, \<^verbatim>\<open>latest\<close>, \<^verbatim>\<open>daily\<close>, \<^verbatim>\<open>weekly\<close>,
  \<^verbatim>\<open>monthly\<close>, \<^verbatim>\<open>lifetime\<close>) on a selection \<open>self\<close> return a selection of the same class and
  edge whose \<^verbatim>\<open>meta\<close> and \<^verbatim>\<open>params\<close> are dicts newly allocated by the call, distinct from
  every dict there was before; they hold the entries of \<open>self\<close>'s dicts (for \<^verbatim>\<open>clone\<close>), with
  the entries the builder sets (for a builder call). Every dict there was before the call,
  \<open>self\<close>'s \<^verbatim>\<open>meta\<close> and \<^verbatim>\<open>params\<close> among them, has the entries it had.
\<close>

theorem builder_call_leaves_self_unchanged:
  assumes v: "valid st self"
  shows
    "(\<forall>st' s'. clone e clk st self = (st', s') \<longrightarrow>
        fresh_copy st self st' s' \<and>
        the_meta st' s' = the_meta st self \<and> the_params st' s' = the_params st self \<and>
        the_meta st' self = the_meta st self \<and> the_params st' self = the_params st self) \<and>
     (\<forall>c st' s'. builder e clk c st self = Inr (st', s') \<longrightarrow>
        fresh_copy st self st' s' \<and>
        the_meta st' s' = spec_meta_after e clk c (the_meta st self) \<and>
        the_params st' s' = spec_params_after e clk c (the_params st self) \<and>
        the_meta st' self = the_meta st self \<and> the_params st' self = the_params st self)"
proof (rule conjI; intro allI impI)
  fix st' s'
  assume c: "clone e clk st self = (st', s')"
  from clone_result [OF v c] have fc: "fresh_copy st self st' s'"
    and m: "the_meta st' s' = the_meta st self"
    and p: "the_params st' s' = the_params st self" by simp_all
  from fresh_copy_frame [OF fc v]
  show "fresh_copy st self st' s' \<and>
        the_meta st' s' = the_meta st self \<and> the_params st' s' = the_params st self \<and>
        the_meta st' self = the_meta st self \<and> the_params st' self = the_params st self"
    using fc m p by simp
next
  fix c st' s'
  assume b: "builder e clk c st self = Inr (st', s')"
  from builder_result [OF v b] have fc: "fresh_copy st self st' s'"
    and m: "the_meta st' s' = spec_meta_after e clk c (the_meta st self)"
    and p: "the_params st' s' = spec_params_after e clk c (the_params st self)" by simp_all
  from fresh_copy_frame [OF fc v]
  show "fresh_copy st self st' s' \<and>
        the_meta st' s' = spec_meta_after e clk c (the_meta st self) \<and>
        the_params st' s' = spec_params_after e clk c (the_params st self) \<and>
        the_meta st' self = the_meta st self \<and> the_params st' self = the_params st self"
    using fc m p by simp
qed

lemma sample_posts_valid:
  "valid sample_store sample_posts" "sel_class sample_posts = PostSelection"
  "p_limit (the_params sample_store sample_posts) = None"
  by (simp_all add: valid_def sample_store_def sample_posts_def the_params_def)

theorem builder_call_leaves_self_unchanged_witness:
  "the_meta (fst (PostSelection_latest sample_env sample_clock 5 sample_store sample_posts))
     sample_posts = the_meta sample_store sample_posts \<and>
   the_params (fst (PostSelection_latest sample_env sample_clock 5 sample_store sample_posts))
     sample_posts = the_params sample_store sample_posts \<and>
   p_limit (the_params sample_store sample_posts) = None \<and>
   p_limit (the_params
     (fst (PostSelection_latest sample_env sample_clock 5 sample_store sample_posts))
     (snd (PostSelection_latest sample_env sample_clock 5 sample_store sample_posts))) = Some 5 \<and>
   sel_meta (snd (PostSelection_latest sample_env sample_clock 5 sample_store sample_posts))
     \<noteq> sel_meta sample_posts"
proof -
  let ?r = "PostSelection_latest sample_env sample_clock 5 sample_store sample_posts"
  have b: "builder sample_env sample_clock (Latest 5) sample_store sample_posts =
      Inr (fst ?r, snd ?r)"
    by (simp add: builder_def sample_posts_valid)
  from builder_call_leaves_self_unchanged [OF sample_posts_valid(1), of sample_env sample_clock] b
  have fc: "fresh_copy sample_store sample_posts (fst ?r) (snd ?r)"
    and p: "the_params (fst ?r) (snd ?r) =
      spec_params_after sample_env sample_clock (Latest 5) (the_params sample_store sample_posts)"
    and m0: "the_meta (fst ?r) sample_posts = the_meta sample_store sample_posts"
    and p0: "the_params (fst ?r) sample_posts = the_params sample_store sample_posts"
    by blast+
  from fc sample_posts_valid(1) have new: "sel_meta (snd ?r) \<noteq> sel_meta sample_posts"
    by (auto simp: fresh_copy_def valid_def)
  from p have lim: "p_limit (the_params (fst ?r) (snd ?r)) = Some 5"
    by (simp add: spec_params_after_def)
  from m0 p0 sample_posts_valid(3) lim new show ?thesis by blast
qed

subsection \<open>The page flag\<close>

lemma Selection_init_result:
  assumes "Selection_init e clk c edge st0 = (st, s)"
  shows "valid st s \<and> the_params st s = init_params \<and> the_meta st s = init_meta e clk \<and>
         sel_class s = c \<and> sel_edge s = edge \<and> sel_results s = None"
  using assms
  by (auto simp: Selection_init_def alloc_meta_def alloc_params_def Let_def valid_def
      the_params_def the_meta_def init_params_def init_meta_def)

lemma chain_result:
  "valid st s \<Longrightarrow> chain e calls st s = Inr (st', s') \<Longrightarrow>
   valid st' s' \<and> sel_class s' = sel_class s \<and> sel_edge s' = sel_edge s \<and>
   the_params st' s' =
     foldl (\<lambda>p cc. spec_params_after e (fst cc) (snd cc) p) (the_params st s) calls"
proof (induction calls arbitrary: st s)
  case Nil
  then show ?case by simp
next
  case (Cons cc calls)
  from Cons.prems(2) obtain st1 s1 where
    b: "builder e (fst cc) (snd cc) st s = Inr (st1, s1)" and
    rest: "chain e calls st1 s1 = Inr (st', s')"
    by (auto split: sum.splits)
  from builder_result [OF Cons.prems(1) b] have fc: "fresh_copy st s st1 s1"
    and p: "the_params st1 s1 = spec_params_after e (fst cc) (snd cc) (the_params st s)"
    by simp_all
  from fc have v1: "valid st1 s1" by (rule fresh_copy_valid)
  from fc have same: "sel_class s1 = sel_class s" "sel_edge s1 = sel_edge s"
    by (simp_all add: fresh_copy_def)
  from Cons.IH [OF v1 rest] p same show ?case by simp
qed

lemma page_after:
  "p_page (spec_params_after e clk c p) = (sets_range c \<or> p_page p)"
  by (cases c) (simp_all add: spec_params_after_def sets_range_def)

lemma since_until_after:
  "p_page p = (p_since p \<noteq> None) \<Longrightarrow> p_page p = (p_until p \<noteq> None) \<Longrightarrow>
   p_page (spec_params_after e clk c p) = (p_since (spec_params_after e clk c p) \<noteq> None) \<and>
   p_page (spec_params_after e clk c p) = (p_until (spec_params_after e clk c p) \<noteq> None)"
  by (cases c) (simp_all add: spec_params_after_def)

lemma page_after_chain:
  "p_page (foldl (\<lambda>p cc. spec_params_after e (fst cc) (snd cc) p) p calls) =
     (p_page p \<or> (\<exists>cc \<in> set calls. sets_range (snd cc)))"
  by (induction calls arbitrary: p) (auto simp: page_after)

lemma since_until_after_chain:
  "p_page p = (p_since p \<noteq> None) \<Longrightarrow> p_page p = (p_until p \<noteq> None) \<Longrightarrow>
   p_page (foldl (\<lambda>p cc. spec_params_after e (fst cc) (snd cc) p) p calls) =
     (p_since (foldl (\<lambda>p cc. spec_params_after e (fst cc) (snd cc) p) p calls) \<noteq> None) \<and>
   p_page (foldl (\<lambda>p cc. spec_params_after e (fst cc) (snd cc) p) p calls) =
     (p_until (foldl (\<lambda>p cc. spec_params_after e (fst cc) (snd cc) p) p calls) \<noteq> None)"
proof (induction calls arbitrary: p)
  case Nil
  then show ?case by simp
next
  case (Cons cc calls)
  from since_until_after [OF Cons.prems, of e "fst cc" "snd cc"]
  have a: "p_page (spec_params_after e (fst cc) (snd cc) p) =
      (p_since (spec_params_after e (fst cc) (snd cc) p) \<noteq> None)"
    and b: "p_page (spec_params_after e (fst cc) (snd cc) p) =
      (p_until (spec_params_after e (fst cc) (snd cc) p) \<noteq> None)" by blast+
  show ?case unfolding foldl_Cons by (rule Cons.IH [OF a b])
qed

text \<open>
  C6. A Selection as its constructor leaves it has \<^verbatim>\<open>params['page']\<close> false. After any chain
  of builder calls from it, \<^verbatim>\<open>params['page']\<close> is true if and only if one of the calls was
  \<^verbatim>\<open>range\<close> or \<^verbatim>\<open>since\<close>, if and only if \<^verbatim>\<open>since\<close> is a key of \<^verbatim>\<open>params\<close>, if and only if
  \<^verbatim>\<open>until\<close> is one, if and only if \<^verbatim>\<open>_has_daterange\<close> holds. One builder call on any
  selection leaves \<^verbatim>\<open>params['page']\<close> true when it is \<^verbatim>\<open>range\<close> or \<^verbatim>\<open>since\<close> and as it was
  otherwise.
\<close>

theorem page_iff_date_range_was_set:
  assumes init: "Selection_init e clk0 c edge st0 = (st, s)"
    and calls: "chain e calls st s = Inr (st', s')"
  shows
    "\<not> p_page (the_params st s) \<and>
     p_page (the_params st' s') = (\<exists>cc \<in> set calls. sets_range (snd cc)) \<and>
     p_page (the_params st' s') = (p_since (the_params st' s') \<noteq> None) \<and>
     p_page (the_params st' s') = (p_until (the_params st' s') \<noteq> None) \<and>
     p_page (the_params st' s') = has_daterange st' s' \<and>
     (\<forall>clk c1 st1 s1 st2 s2.
        valid st1 (s1 :: 'b selection) \<and> builder e clk c1 st1 s1 = Inr (st2, s2) \<longrightarrow>
        p_page (the_params st2 s2) = (sets_range c1 \<or> p_page (the_params st1 s1)))"
proof -
  from Selection_init_result [OF init] have v: "valid st s"
    and p0: "the_params st s = init_params" by simp_all
  from chain_result [OF v calls] p0 have p:
    "the_params st' s' =
       foldl (\<lambda>p cc. spec_params_after e (fst cc) (snd cc) p) init_params calls" by simp
  have i1: "p_page init_params = (p_since init_params \<noteq> None)"
    and i2: "p_page init_params = (p_until init_params \<noteq> None)"
    by (simp_all add: init_params_def)
  have fresh: "\<not> p_page (the_params st s)" by (simp add: p0 init_params_def)
  have page: "p_page (the_params st' s') = (\<exists>cc \<in> set calls. sets_range (snd cc))"
    by (simp add: p page_after_chain init_params_def)
  from since_until_after_chain [OF i1 i2, of e calls]
  have since: "p_page (the_params st' s') = (p_since (the_params st' s') \<noteq> None)"
    and until: "p_page (the_params st' s') = (p_until (the_params st' s') \<noteq> None)"
    unfolding p by blast+
  from since until have range: "p_page (the_params st' s') = has_daterange st' s'"
    by (auto simp: has_daterange_def)
  have one: "p_page (the_params st2 s2) = (sets_range c1 \<or> p_page (the_params st1 s1))"
    if "valid st1 (s1 :: 'b selection) \<and> builder e clk c1 st1 s1 = Inr (st2, s2)"
    for clk c1 st1 s1 st2 s2
  proof -
    from that have "valid st1 s1" and "builder e clk c1 st1 s1 = Inr (st2, s2)" by simp_all
    from builder_result [OF this] show ?thesis by (simp add: page_after)
  qed
  from fresh page since until range one show ?thesis by blast
qed


theorem page_iff_date_range_was_set_witness:
  "\<not> p_page (the_params (fst sample_new) (snd sample_new)) \<and>
   (case chain sample_env sample_chain (fst sample_new) (snd sample_new) of
      Inl err \<Rightarrow> False
    | Inr r \<Rightarrow>
        p_page (the_params (fst r) (snd r)) \<and>
        p_since (the_params (fst r) (snd r)) \<noteq> None \<and>
        p_until (the_params (fst r) (snd r)) \<noteq> None)"
proof -
  let ?r1 = "InsightsSelection_daily sample_env sample_clock (Name ''a'')
      (fst sample_new) (snd sample_new)"
  let ?r2 = "Selection_range sample_env sample_clock ''2014-03-01T00:00:00+0000'' None
      (fst ?r1) (snd ?r1)"
  have init: "Selection_init sample_env sample_clock InsightsSelection sample_edge
      \<lparr>metas = [], paramss = []\<rparr> = (fst sample_new, snd sample_new)"
    by (simp add: sample_new_def)
  have cls: "sel_class (snd sample_new) = InsightsSelection"
    by (simp add: sample_new_def Selection_init_def alloc_meta_def alloc_params_def Let_def)
  have ch: "chain sample_env sample_chain (fst sample_new) (snd sample_new) =
      Inr (fst ?r2, snd ?r2)"
    by (simp add: sample_chain_def builder_def cls)
  note T = page_iff_date_range_was_set [OF init ch]
  from T have fresh: "\<not> p_page (the_params (fst sample_new) (snd sample_new))" by blast
  from T have "p_page (the_params (fst ?r2) (snd ?r2)) =
      (\<exists>cc \<in> set sample_chain. sets_range (snd cc))" by blast
  then have page: "p_page (the_params (fst ?r2) (snd ?r2))"
    by (simp add: sample_chain_def sets_range_def)
  from T page have since: "p_since (the_params (fst ?r2) (snd ?r2)) \<noteq> None" by blast
  from T page have until: "p_until (the_params (fst ?r2) (snd ?r2)) \<noteq> None" by blast
  from fresh page since until show ?thesis by (simp add: ch)
qed

subsection \<open>since and range\<close>

lemma PostSelection_get_cong:
  assumes "the_meta st1 r1 = the_meta st2 r2" and "the_params st1 r1 = the_params st2 r2"
    and "sel_edge r1 = sel_edge r2"
  shows "PostSelection_get e st1 r1 sent = PostSelection_get e st2 r2 sent"
  using assms by (simp add: PostSelection_get_def PostSelection_pages_def sel_graph_def)

lemma InsightsSelection_get_cong:
  assumes m: "the_meta st1 r1 = the_meta st2 r2" and p: "the_params st1 r1 = the_params st2 r2"
    and edge: "sel_edge r1 = sel_edge r2"
  shows "InsightsSelection_get e st1 r1 sent = InsightsSelection_get e st2 r2 sent"
proof -
  have days: "requested_days st1 r1 = requested_days st2 r2"
    by (simp add: requested_days_def has_daterange_def m p)
  have fetch: "fetch_insights st1 r1 sent = fetch_insights st2 r2 sent"
    by (simp add: fetch_insights_def sel_graph_def m p edge split: option.splits)
  have shape: "shape_rows st1 r1 = shape_rows st2 r2"
    by (intro ext) (simp add: shape_rows_def m split: option.splits)
  show ?thesis unfolding InsightsSelection_get_def days fetch shape ..
qed

text \<open>
  C7. On every selection and for every date \<open>d\<close>, \<^verbatim>\<open>since(d)\<close> and \<^verbatim>\<open>range(d)\<close> without
  \<^verbatim>\<open>until\<close>, called under the same clock, return selections of the same class and edge
  with the same entries in \<^verbatim>\<open>meta\<close> and in \<^verbatim>\<open>params\<close>, neither with cached results;
  \<^verbatim>\<open>meta['until']\<close> is the parsed current moment; and \<^verbatim>\<open>get\<close> and \<^verbatim>\<open>serialize\<close> behave the
  same on both, for every transport state.
\<close>

theorem since_is_range_until_now:
  assumes v: "valid st self"
    and s: "Selection_since e clk d st self = (st1, r1)"
    and r: "Selection_range e clk d None st self = (st2, r2)"
  shows
    "sel_class r1 = sel_class r2 \<and> sel_edge r1 = sel_edge r2 \<and>
     sel_results r1 = sel_results r2 \<and>
     the_meta st1 r1 = the_meta st2 r2 \<and> the_params st1 r1 = the_params st2 r2 \<and>
     m_since (the_meta st1 r1) = parse_utc e d \<and>
     m_until (the_meta st1 r1) = parse_utc e (today_isoformat clk) \<and>
     p_since (the_params st1 r1) = Some (timestamp e d) \<and>
     p_until (the_params st1 r1) = Some (timestamp e (today_isoformat clk)) \<and>
     (\<forall>e1 sent. PostSelection_get e1 st1 r1 sent = PostSelection_get e1 st2 r2 sent) \<and>
     (\<forall>e1 sent. InsightsSelection_get e1 st1 r1 sent = InsightsSelection_get e1 st2 r2 sent) \<and>
     (\<forall>e1 sent. InsightsSelection_serialize e1 st1 r1 sent =
        InsightsSelection_serialize e1 st2 r2 sent)"
proof -
  from since_result [OF v s] have fc1: "fresh_copy st self st1 r1"
    and m1: "the_meta st1 r1 = spec_meta_after e clk (Since d) (the_meta st self)"
    and p1: "the_params st1 r1 = spec_params_after e clk (Since d) (the_params st self)"
    and n1: "sel_results r1 = None" by simp_all
  from range_result [OF v r] have fc2: "fresh_copy st self st2 r2"
    and m2: "the_meta st2 r2 = spec_meta_after e clk (Range d None) (the_meta st self)"
    and p2: "the_params st2 r2 = spec_params_after e clk (Range d None) (the_params st self)"
    and n2: "sel_results r2 = None" by simp_all
  from fc1 fc2 have cls: "sel_class r1 = sel_class r2" and edge: "sel_edge r1 = sel_edge r2"
    by (simp_all add: fresh_copy_def)
  from m1 m2 have m: "the_meta st1 r1 = the_meta st2 r2"
    by (simp add: spec_meta_after_def default_until_def)
  from p1 p2 have p: "the_params st1 r1 = the_params st2 r2"
    by (simp add: spec_params_after_def default_until_def)
  have g1: "PostSelection_get e1 st1 r1 sent = PostSelection_get e1 st2 r2 sent" for e1 sent
    by (rule PostSelection_get_cong [OF m p edge])
  have g2: "InsightsSelection_get e1 st1 r1 sent = InsightsSelection_get e1 st2 r2 sent"
    for e1 sent
    by (rule InsightsSelection_get_cong [OF m p edge])
  have g3: "InsightsSelection_serialize e1 st1 r1 sent =
      InsightsSelection_serialize e1 st2 r2 sent" for e1 sent
    by (simp add: InsightsSelection_serialize_def g2)
  from m1 have v1: "m_since (the_meta st1 r1) = parse_utc e d"
    and v2: "m_until (the_meta st1 r1) = parse_utc e (today_isoformat clk)"
    by (simp_all add: spec_meta_after_def)
  from p1 have v3: "p_since (the_params st1 r1) = Some (timestamp e d)"
    and v4: "p_until (the_params st1 r1) = Some (timestamp e (today_isoformat clk))"
    by (simp_all add: spec_params_after_def)
  from cls edge n1 n2 m p v1 v2 v3 v4 g1 g2 g3 show ?thesis by simp
qed

theorem since_is_range_until_now_witness:
  "the_meta
     (fst (Selection_since sample_env sample_clock ''2014-03-02T00:00:00+0000''
        sample_store sample_posts))
     (snd (Selection_since sample_env sample_clock ''2014-03-02T00:00:00+0000''
        sample_store sample_posts)) =
   the_meta
     (fst (Selection_range sample_env sample_clock ''2014-03-02T00:00:00+0000'' None
        sample_store sample_posts))
     (snd (Selection_range sample_env sample_clock ''2014-03-02T00:00:00+0000'' None
        sample_store sample_posts)) \<and>
   the_params
     (fst (Selection_since sample_env sample_clock ''2014-03-02T00:00:00+0000''
        sample_store sample_posts))
     (snd (Selection_since sample_env sample_clock ''2014-03-02T00:00:00+0000''
        sample_store sample_posts)) =
   the_params
     (fst (Selection_range sample_env sample_clock ''2014-03-02T00:00:00+0000'' None
        sample_store sample_posts))
     (snd (Selection_range sample_env sample_clock ''2014-03-02T00:00:00+0000'' None
        sample_store sample_posts)) \<and>
   m_until (the_meta
     (fst (Selection_since sample_env sample_clock ''2014-03-02T00:00:00+0000''
        sample_store sample_posts))
     (snd (Selection_since sample_env sample_clock ''2014-03-02T00:00:00+0000''
        sample_store sample_posts))) = 1402272000000000"
proof -
  let ?s = "Selection_since sample_env sample_clock ''2014-03-02T00:00:00+0000''
      sample_store sample_posts"
  let ?r = "Selection_range sample_env sample_clock ''2014-03-02T00:00:00+0000'' None
      sample_store sample_posts"
  have s: "?s = (fst ?s, snd ?s)" and r: "?r = (fst ?r, snd ?r)" by simp_all
  note T = since_is_range_until_now [OF sample_posts_valid(1) s r]
  from T have m: "the_meta (fst ?s) (snd ?s) = the_meta (fst ?r) (snd ?r)" by blast
  from T have p: "the_params (fst ?s) (snd ?s) = the_params (fst ?r) (snd ?r)" by blast
  from T have "m_until (the_meta (fst ?s) (snd ?s)) =
      parse_utc sample_env (today_isoformat sample_clock)" by blast
  then have u: "m_until (the_meta (fst ?s) (snd ?s)) = 1402272000000000"
    by (simp add: sample_env_def sample_clock_def sample_parse_def)
  from m p u show ?thesis by blast
qed

subsection \<open>Item access and the cached results\<close>

lemma sample_all_posts_get:
  "PostSelection_get sample_env sample_store sample_all_posts sent =
     (Some (Inr [sample_post ''p4'' ''2014-03-03T00:00:00+0000'',
                 sample_post ''p3'' ''2014-03-02T00:00:00+0000'']),
      sent @ [Get ''posts'' (the_params sample_store sample_all_posts)])"
proof -
  have pages: "PostSelection_pages sample_store sample_all_posts = seq_of_list [sample_page1]"
    by (simp add: PostSelection_pages_def the_params_def sample_store_def sample_all_posts_def
        sel_graph_def sample_edge_def sample_graph_def)
  have p0: "\<forall>k < length [sample_page1]. seq_of_list [sample_page1] (0 + k) = Some ([sample_page1] ! k)"
    by (simp add: seq_of_list_def)
  have p1: "seq_of_list [sample_page1] (0 + length [sample_page1]) = None"
    by (simp add: seq_of_list_def)
  have c: "list_all2 (\<lambda>raw p. Post_init sample_env (sel_edge sample_all_posts) raw = Inr p)
      (concat (map page_data [sample_page1]))
      [sample_post ''p4'' ''2014-03-03T00:00:00+0000'',
       sample_post ''p3'' ''2014-03-02T00:00:00+0000'']"
    by (simp add: sample_page1_def sample_Post_init sample_all_posts_def)
  have a: "list_all (\<lambda>p. m_since (the_meta sample_store sample_all_posts) \<le> created_time p)
      [sample_post ''p4'' ''2014-03-03T00:00:00+0000'',
       sample_post ''p3'' ''2014-03-02T00:00:00+0000'']"
    by (simp add: sample_post_def sample_parse_def the_meta_def sample_store_def
        sample_all_posts_def)
  from scan_pages_exhaust [OF p0 p1 c a, of "[]"] show ?thesis
    by (simp add: PostSelection_get_def pages)
qed

text \<open>
  C8. \<^verbatim>\<open>__iter__\<close> calls \<^verbatim>\<open>get\<close> when the instance has no \<^verbatim>\<open>_results\<close> yet, stores the
  result on the instance, and a later pass returns the stored result and sends nothing.
  \<^verbatim>\<open>__getitem__\<close> does neither: it leaves the instance as it was, \<^verbatim>\<open>_results\<close> included,
  and sends on every access what \<^verbatim>\<open>get\<close> sends, whether or not \<^verbatim>\<open>_results\<close> is set.
\<close>

theorem Selection_getitem_fetches_every_time:
  "(\<forall>r self1 sent1.
      Selection_getitem get self key sent = (r, self1, sent1) \<longrightarrow>
        self1 = self \<and> sent1 = snd (get self sent)) \<and>
   (\<forall>xs self1 sent1.
      Selection_iter get self sent = (Some (Inr xs), self1, sent1) \<longrightarrow>
        sel_results self1 = Some xs \<and>
        (sel_results self = None \<longrightarrow> sent1 = snd (get self sent)) \<and>
        Selection_iter get self1 sent1 = (Some (Inr xs), self1, sent1))"
proof (rule conjI; intro allI impI)
  fix r self1 sent1
  assume "Selection_getitem get self key sent = (r, self1, sent1)"
  then show "self1 = self \<and> sent1 = snd (get self sent)"
    by (auto simp: Selection_getitem_def split: prod.splits option.splits sum.splits)
next
  fix xs self1 sent1
  assume it: "Selection_iter get self sent = (Some (Inr xs), self1, sent1)"
  then have stored: "sel_results self1 = Some xs"
    by (auto simp: Selection_iter_def split: prod.splits option.splits sum.splits)
  from it have first: "sel_results self = None \<longrightarrow> sent1 = snd (get self sent)"
    by (auto simp: Selection_iter_def split: prod.splits option.splits sum.splits)
  from stored have again: "Selection_iter get self1 sent1 = (Some (Inr xs), self1, sent1)"
    by (simp add: Selection_iter_def)
  from stored first again
  show "sel_results self1 = Some xs \<and>
        (sel_results self = None \<longrightarrow> sent1 = snd (get self sent)) \<and>
        Selection_iter get self1 sent1 = (Some (Inr xs), self1, sent1)" by simp
qed

theorem Selection_getitem_fetches_every_time_witness:
  "snd (snd (Selection_getitem (PostSelection_get sample_env sample_store) sample_all_posts 0
     (snd (snd (Selection_getitem (PostSelection_get sample_env sample_store)
        sample_all_posts 0 []))))) =
     [Get ''posts'' (the_params sample_store sample_all_posts),
      Get ''posts'' (the_params sample_store sample_all_posts)] \<and>
   snd (snd (Selection_iter (PostSelection_get sample_env sample_store)
     (fst (snd (Selection_iter (PostSelection_get sample_env sample_store)
        sample_all_posts [])))
     (snd (snd (Selection_iter (PostSelection_get sample_env sample_store)
        sample_all_posts []))))) =
     [Get ''posts'' (the_params sample_store sample_all_posts)]"
proof -
  let ?get = "PostSelection_get sample_env sample_store"
  let ?g1 = "Selection_getitem ?get sample_all_posts 0 []"
  have g1: "?g1 = (fst ?g1, fst (snd ?g1), snd (snd ?g1))" by simp
  from Selection_getitem_fetches_every_time [of ?get sample_all_posts 0 "[]"] g1
  have s1: "snd (snd ?g1) = snd (?get sample_all_posts [])" by blast
  then have s1': "snd (snd ?g1) = [Get ''posts'' (the_params sample_store sample_all_posts)]"
    by (simp add: sample_all_posts_get)
  let ?g2 = "Selection_getitem ?get sample_all_posts 0 (snd (snd ?g1))"
  have g2: "?g2 = (fst ?g2, fst (snd ?g2), snd (snd ?g2))" by simp
  from Selection_getitem_fetches_every_time [of ?get sample_all_posts 0 "snd (snd ?g1)"] g2
  have "snd (snd ?g2) = snd (?get sample_all_posts (snd (snd ?g1)))" by blast
  then have twice: "snd (snd ?g2) =
      [Get ''posts'' (the_params sample_store sample_all_posts),
       Get ''posts'' (the_params sample_store sample_all_posts)]"
    by (simp add: s1' sample_all_posts_get)
  let ?i1 = "Selection_iter ?get sample_all_posts []"
  have none: "sel_results sample_all_posts = None" by (simp add: sample_all_posts_def)
  have i1: "?i1 =
      (Some (Inr [sample_post ''p4'' ''2014-03-03T00:00:00+0000'',
                  sample_post ''p3'' ''2014-03-02T00:00:00+0000'']),
       fst (snd ?i1), snd (snd ?i1))"
    by (simp add: Selection_iter_def none sample_all_posts_get)
  note T = Selection_getitem_fetches_every_time [of ?get sample_all_posts 0 "[]"]
  from T i1 none have once: "snd (snd ?i1) = snd (?get sample_all_posts [])" by blast
  from T i1 have "Selection_iter ?get (fst (snd ?i1)) (snd (snd ?i1)) =
      (Some (Inr [sample_post ''p4'' ''2014-03-03T00:00:00+0000'',
                  sample_post ''p3'' ''2014-03-02T00:00:00+0000'']),
       fst (snd ?i1), snd (snd ?i1))" by blast
  then have "snd (snd (Selection_iter ?get (fst (snd ?i1)) (snd (snd ?i1)))) = snd (snd ?i1)"
    by simp
  with once have iter: "snd (snd (Selection_iter ?get (fst (snd ?i1)) (snd (snd ?i1)))) =
      [Get ''posts'' (the_params sample_store sample_all_posts)]"
    by (simp add: sample_all_posts_get)
  from twice iter show ?thesis by blast
qed

subsection \<open>InsightsSelection.get without requested metrics\<close>

lemma shape_rows_no_single:
  "m_single (the_meta st self) = None \<Longrightarrow> shape_rows st self rows = Inl (KeyError ''single'')"
  by (simp add: shape_rows_def bind_res_def)

lemma get_no_single_fails:
  "m_single (the_meta st self) = None \<Longrightarrow>
   fst (InsightsSelection_get e st self sent) \<noteq> Inr items"
  by (auto simp: InsightsSelection_get_def Let_def bind_res_def shape_rows_no_single
      split: prod.splits sum.splits)

lemma get_sent:
  "requested_days st self \<le> 93 \<Longrightarrow>
   snd (InsightsSelection_get e st self sent) = snd (fetch_insights st self sent)"
  by (auto simp: InsightsSelection_get_def Let_def split: prod.splits)

lemma chain_meta:
  "valid st s \<Longrightarrow> chain e calls st s = Inr (st', s') \<Longrightarrow>
   the_meta st' s' =
     foldl (\<lambda>m cc. spec_meta_after e (fst cc) (snd cc) m) (the_meta st s) calls"
proof (induction calls arbitrary: st s)
  case Nil
  then show ?case by simp
next
  case (Cons cc calls)
  from Cons.prems(2) obtain st1 s1 where
    b: "builder e (fst cc) (snd cc) st s = Inr (st1, s1)" and
    rest: "chain e calls st1 s1 = Inr (st', s')"
    by (auto split: sum.splits)
  from builder_result [OF Cons.prems(1) b] have fc: "fresh_copy st s st1 s1"
    and m: "the_meta st1 s1 = spec_meta_after e (fst cc) (snd cc) (the_meta st s)"
    by simp_all
  from Cons.IH [OF fresh_copy_valid [OF fc] rest] m show ?case by simp
qed

lemma single_with_metrics_after:
  "(m_single m = None) = (m_metrics m = None) \<Longrightarrow>
   (m_single (spec_meta_after e clk c m) = None) = (m_metrics (spec_meta_after e clk c m) = None)"
  by (cases c) (auto simp: spec_meta_after_def metrics_delta_def split: metrics_arg.splits)

lemma single_with_metrics_after_chain:
  "(m_single m = None) = (m_metrics m = None) \<Longrightarrow>
   (m_single (foldl (\<lambda>m cc. spec_meta_after e (fst cc) (snd cc) m) m calls) = None) =
   (m_metrics (foldl (\<lambda>m cc. spec_meta_after e (fst cc) (snd cc) m) m calls) = None)"
proof (induction calls arbitrary: m)
  case Nil
  then show ?case by simp
next
  case (Cons cc calls)
  show ?case unfolding foldl_Cons
    by (rule Cons.IH [OF single_with_metrics_after [OF Cons.prems]])
qed

lemma single_with_metrics:
  assumes init: "Selection_init e clk0 c edge st0 = (st1, s1)"
    and calls: "chain e calls st1 s1 = Inr (st, self)"
  shows "(m_single (the_meta st self) = None) = (m_metrics (the_meta st self) = None)"
proof -
  from Selection_init_result [OF init] have v: "valid st1 s1"
    and m0: "the_meta st1 s1 = init_meta e clk0" by simp_all
  have i: "(m_single (init_meta e clk0) = None) = (m_metrics (init_meta e clk0) = None)"
    by (simp add: init_meta_def)
  from single_with_metrics_after_chain [OF i, of e calls] chain_meta [OF v calls] m0
  show ?thesis by simp
qed

text \<open>
  C4. Take an InsightsSelection as its constructor and any chain of builder calls leave it,
  with no key \<^verbatim>\<open>metrics\<close> in \<^verbatim>\<open>meta\<close>. Then \<^verbatim>\<open>meta\<close> has no key \<^verbatim>\<open>single\<close> either (the helper
  \<^verbatim>\<open>_metrics\<close> sets both or none), and \<^verbatim>\<open>get\<close> never returns rows: within the supported range
  it sends the single call \<^verbatim>\<open>get('insights', **params)\<close>, and once the rows are built, the
  test \<^verbatim>\<open>self.meta['single']\<close> of line 187 raises \<open>KeyError\<close>.
\<close>

theorem InsightsSelection_get_without_metrics_raises:
  assumes init: "Selection_init e clk0 InsightsSelection edge st0 = (st1, s1)"
    and calls: "chain e calls st1 s1 = Inr (st, self)"
    and no_metrics: "m_metrics (the_meta st self) = None"
  shows
    "m_single (the_meta st self) = None \<and>
     (\<forall>items. fst (InsightsSelection_get e st self sent) \<noteq> Inr items) \<and>
     (requested_days st self \<le> 93 \<longrightarrow>
        snd (InsightsSelection_get e st self sent) =
          sent @ [Get ''insights'' (the_params st self)]) \<and>
     (\<forall>fieldnames data rows.
        requested_days st self \<le> 93 \<and>
        pivot e (res_data (get_insights (sel_graph self) (the_params st self)))
          [''end_time''] [] = (fieldnames, data) \<and>
        namedtuple ''Row'' fieldnames = Inr fieldnames \<and>
        make_rows fieldnames data [] = Inr rows \<longrightarrow>
        InsightsSelection_get e st self sent =
          (Inl (KeyError ''single''), sent @ [Get ''insights'' (the_params st self)]))"
proof (intro conjI allI impI)
  from single_with_metrics [OF init calls] no_metrics
  show no_single: "m_single (the_meta st self) = None" by simp
  show "fst (InsightsSelection_get e st self sent) \<noteq> Inr items" for items
    by (rule get_no_single_fails [OF no_single])
  show "snd (InsightsSelection_get e st self sent) =
          sent @ [Get ''insights'' (the_params st self)]"
    if "requested_days st self \<le> 93"
    using that no_metrics by (simp add: get_sent fetch_insights_def)
  show "InsightsSelection_get e st self sent =
          (Inl (KeyError ''single''), sent @ [Get ''insights'' (the_params st self)])"
    if "requested_days st self \<le> 93 \<and>
        pivot e (res_data (get_insights (sel_graph self) (the_params st self)))
          [''end_time''] [] = (fieldnames, data) \<and>
        namedtuple ''Row'' fieldnames = Inr fieldnames \<and>
        make_rows fieldnames data [] = Inr rows"
    for fieldnames data rows
    using that no_metrics no_single
    by (simp add: InsightsSelection_get_def fetch_insights_def bind_res_def
        shape_rows_no_single)
qed

lemma sample_new_eval:
  "Selection_init sample_env sample_clock InsightsSelection sample_edge
     \<lparr>metas = [], paramss = []\<rparr> = (fst sample_new, snd sample_new)"
  "chain sample_env [] (fst sample_new) (snd sample_new) = Inr (fst sample_new, snd sample_new)"
  "m_metrics (the_meta (fst sample_new) (snd sample_new)) = None"
  "requested_days (fst sample_new) (snd sample_new) \<le> 93"
  "pivot sample_env
     (res_data (get_insights (sel_graph (snd sample_new))
        (the_params (fst sample_new) (snd sample_new)))) [''end_time''] [] =
     ([''end_time'', ''page_fans''],
      [(PDatetime 1393632000000000, [(''page_fans'', JNum 10)]),
       (PDatetime 1393718400000000, [(''page_fans'', JNum 12)])])"
  "namedtuple ''Row'' [''end_time'', ''page_fans''] = Inr [''end_time'', ''page_fans'']"
  "make_rows [''end_time'', ''page_fans'']
     [(PDatetime 1393632000000000, [(''page_fans'', JNum 10)]),
      (PDatetime 1393718400000000, [(''page_fans'', JNum 12)])] [] =
   Inr [\<lparr>row_fields = [''end_time'', ''page_fans''],
         row_cells = [PDatetime 1393632000000000, PJson (JNum 10)]\<rparr>,
        \<lparr>row_fields = [''end_time'', ''page_fans''],
         row_cells = [PDatetime 1393718400000000, PJson (JNum 12)]\<rparr>]"
  by (simp_all add: sample_new_def Selection_init_def alloc_meta_def alloc_params_def Let_def
      requested_days_def has_daterange_def total_seconds_def
      the_meta_def the_params_def sel_graph_def sample_edge_def sample_graph_def
      sample_result_def sample_env_def sample_parse_def bucket_key_def setdefault_def
      namedtuple_def check_name_def isalnum_def isdigit_def kwlist_def Row_new_def
      bind_res_def)

theorem InsightsSelection_get_without_metrics_raises_witness:
  "InsightsSelection_get sample_env (fst sample_new) (snd sample_new) [] =
     (Inl (KeyError ''single''),
      [Get ''insights'' (the_params (fst sample_new) (snd sample_new))])"
  using InsightsSelection_get_without_metrics_raises
    [OF sample_new_eval(1) sample_new_eval(2) sample_new_eval(3), of "[]"]
    sample_new_eval(4) sample_new_eval(5) sample_new_eval(6) sample_new_eval(7)
  by force

end
